theory Spec2Isabelle
  imports Main "HOL-Library.Sublist" "HOL-Library.Multiset"
begin

section \<open>Data model\<close>

text \<open>
  The vocabulary trainer keeps its session in one store (\<open>src/store/quizStore.ts\<close>), built
  from the pure helpers of \<open>src/store/helpers.ts\<close> and the statistics functions of
  \<open>src/utils/storage.ts\<close>.

  Conventions of the embedding:
  \<^item> a JavaScript string is a \<open>string\<close> whose characters stand for the code units below 256
    (Basic Latin and Latin-1, which covers German and English vocabulary);
  \<^item> the aggregate counters are JavaScript numbers that only ever hold integers; they are
    modelled as \<open>int\<close> (exact below \<open>2^53\<close>), the deck position as \<open>nat\<close>; the counters of
    a word's entry can also become \<open>NaN\<close> and are of the type \<open>JsNumber\<close>;
  \<^item> a plain object used as a dictionary is the association list of its own properties in
    the order in which JavaScript enumerates them; a read \<open>obj[k]\<close> finds an own property
    or else a property inherited from \<open>Object.prototype\<close>;
  \<^item> \<open>null\<close> and \<open>undefined\<close> are \<open>None\<close>;
  \<^item> the clock (\<open>new Date().toISOString()\<close>) and the random source (\<open>Math.random\<close>) are
    explicit arguments.
  Field names shared by several interfaces carry a suffix: \<open>_v\<close> for \<open>VocabItem\<close>,
  \<open>_c\<close> for \<open>Choice\<close>, \<open>_w\<close> for \<open>WordStats\<close>, \<open>_s\<close> for \<open>Stats\<close>.
\<close>

datatype Mode = DeToEn | EnToDe

record VocabItem =
  id_v :: string
  de :: string
  en :: string
  difficulty_v :: string
  tags :: "string list"

record Choice =
  text_c :: string
  isCorrect_c :: bool

text \<open>
  A number that is an integer, or \<open>NaN\<close>. Addition with \<open>NaN\<close> gives \<open>NaN\<close>, and every
  comparison with \<open>NaN\<close> is false. \<open>undefined\<close> in an addition or a comparison counts as
  \<open>NaN\<close>.
\<close>

datatype JsNumber = Number int | NaN

instantiation JsNumber :: "{zero, one, plus, ord}"
begin

definition zero_JsNumber_def: "0 = Number 0"

definition one_JsNumber_def: "1 = Number 1"

definition plus_JsNumber_def:
  "a + b = (case a of NaN \<Rightarrow> NaN
            | Number x \<Rightarrow> (case b of NaN \<Rightarrow> NaN | Number y \<Rightarrow> Number (x + y)))"

definition less_JsNumber_def:
  "a < b = (case a of NaN \<Rightarrow> False
            | Number x \<Rightarrow> (case b of NaN \<Rightarrow> False | Number y \<Rightarrow> x < y))"

definition less_eq_JsNumber_def:
  "a \<le> b = (case a of NaN \<Rightarrow> False
            | Number x \<Rightarrow> (case b of NaN \<Rightarrow> False | Number y \<Rightarrow> x \<le> y))"

instance ..

end

instance JsNumber :: numeral
proof
  fix a b c :: JsNumber
  show "a + b + c = a + (b + c)"
    by (cases a; cases b; cases c) (simp_all add: plus_JsNumber_def)
qed

record WordStats =
  attempts_w :: JsNumber
  correct_w :: JsNumber
  lastAttempted :: string

type_synonym WordStatsMap = "(string \<times> WordStats) list"

record Stats =
  correct_s :: int
  attempts_s :: int
  lastSessionDate :: string
  wordStats :: "WordStatsMap option"

section \<open>Statistics (\<open>utils/storage.ts\<close>)\<close>

text \<open>
  The order of the own properties of an object: first the keys that are array indices (the
  decimal numeral, without a leading zero, of a number below \<open>2^32 - 1\<close>) in ascending
  numeric order, then all other keys in the order of their creation.
\<close>

definition isDigit :: "char \<Rightarrow> bool" where
  "isDigit c = (let n = (of_char c :: nat) in 48 \<le> n \<and> n \<le> 57)"

definition digitsValue :: "string \<Rightarrow> nat" where
  "digitsValue k = foldl (\<lambda>n c. 10 * n + ((of_char c :: nat) - 48)) 0 k"

definition arrayIndex :: "string \<Rightarrow> nat option" where
  "arrayIndex k =
     (if k \<noteq> [] \<and> list_all isDigit k \<and> (k = ''0'' \<or> hd k \<noteq> CHR ''0'')
         \<and> digitsValue k < 4294967295
      then Some (digitsValue k) else None)"

text \<open>Whether a new key \<open>k\<close> is enumerated before the existing key \<open>k'\<close>.\<close>

definition keyBefore :: "string \<Rightarrow> string \<Rightarrow> bool" where
  "keyBefore k k' =
     (case arrayIndex k of
        None \<Rightarrow> False
      | Some n \<Rightarrow> (case arrayIndex k' of None \<Rightarrow> True | Some n' \<Rightarrow> n < n'))"

text \<open>
  \<open>{...obj, [k]: v}\<close>: the copy has the own properties of \<open>obj\<close> in their order; an
  existing key keeps its place and takes the new value, a new key takes the place that the
  order of enumeration gives it.
\<close>

primrec setProp :: "string \<Rightarrow> 'v \<Rightarrow> (string \<times> 'v) list \<Rightarrow> (string \<times> 'v) list" where
  "setProp k v [] = [(k, v)]"
| "setProp k v (p # ps) =
     (if fst p = k then (k, v) # ps
      else if keyBefore k (fst p) \<and> k \<notin> set (map fst ps) then (k, v) # p # ps
      else p # setProp k v ps)"

text \<open>
  The names that every plain object inherits from \<open>Object.prototype\<close>. Their values are
  functions (for \<open>__proto__\<close> the prototype itself): truthy, and without the properties
  \<open>attempts\<close> and \<open>correct\<close>.
\<close>

definition objectPrototypeNames :: "string list" where
  "objectPrototypeNames =
     [''constructor'', ''hasOwnProperty'', ''isPrototypeOf'', ''propertyIsEnumerable'',
      ''toLocaleString'', ''toString'', ''valueOf'', ''__proto__'', ''__defineGetter__'',
      ''__defineSetter__'', ''__lookupGetter__'', ''__lookupSetter__'']"

text \<open>\<open>stats.wordStats || {}\<close>\<close>

definition wordStatsOrEmpty :: "Stats \<Rightarrow> WordStatsMap" where
  "wordStatsOrEmpty stats = (case wordStats stats of None \<Rightarrow> [] | Some m \<Rightarrow> m)"

text \<open>
  \<open>wordStats[wordId] || {attempts: 0, correct: 0, lastAttempted: ...}\<close>: an own entry, or
  else an inherited value, whose \<open>attempts\<close> and \<open>correct\<close> are \<open>undefined\<close>, or else the
  default entry.
\<close>

definition updateWordStats :: "Stats \<Rightarrow> string \<Rightarrow> bool \<Rightarrow> string \<Rightarrow> Stats" where
  "updateWordStats stats wordId isCorrect now =
     (let wordStats' = wordStatsOrEmpty stats;
          currentWordStats =
            (case map_of wordStats' wordId of
               Some ws \<Rightarrow> ws
             | None \<Rightarrow>
                 if wordId \<in> set objectPrototypeNames
                 then \<lparr>attempts_w = NaN, correct_w = NaN, lastAttempted = []\<rparr>
                 else \<lparr>attempts_w = 0, correct_w = 0, lastAttempted = now\<rparr>)
      in stats\<lparr>wordStats :=
           Some (setProp wordId
                   \<lparr>attempts_w = attempts_w currentWordStats + 1,
                    correct_w = correct_w currentWordStats + (if isCorrect then 1 else 0),
                    lastAttempted = now\<rparr>
                   wordStats')\<rparr>)"

definition getFailedWordIds :: "Stats \<Rightarrow> string list" where
  "getFailedWordIds stats =
     (let wordStats' = wordStatsOrEmpty stats
      in filter (\<lambda>wordId. case map_of wordStats' wordId of
                             None \<Rightarrow> False
                           | Some ws \<Rightarrow> attempts_w ws > correct_w ws)
           (map fst wordStats'))"

definition getTotalUniqueWordsAttempted :: "Stats \<Rightarrow> nat" where
  "getTotalUniqueWordsAttempted stats = length (map fst (wordStatsOrEmpty stats))"

subsection \<open>Persistence\<close>

text \<open>
  \<open>localStorage\<close> maps a key to a text. The text that \<open>JSON.stringify\<close> writes for a
  \<open>Stats\<close> record, and that \<open>JSON.parse\<close> reads back as the same record, is \<open>StatsJson\<close>
  of that record: a property whose value is \<open>undefined\<close> is left out of the text, which is
  \<open>wordStats = None\<close>. \<open>Unparsable\<close> is a text that \<open>JSON.parse\<close> rejects, or the empty text.
  Texts that parse to something other than a \<open>Stats\<close> record are outside the model, and so
  is the text of a record that holds \<open>NaN\<close> (\<open>JSON.stringify\<close> writes \<open>null\<close> for it).
  \<open>setItem\<close> and \<open>removeItem\<close> may throw; \<open>writable\<close> tells whether they succeed.
\<close>

datatype StoredItem = Unparsable | StatsJson Stats

type_synonym LocalStorage = "string \<Rightarrow> StoredItem option"

definition STATS_KEY :: string where
  "STATS_KEY = ''hr-vocab-stats''"

definition defaultStats :: "string \<Rightarrow> Stats" where
  "defaultStats now = \<lparr>correct_s = 0, attempts_s = 0, lastSessionDate = now, wordStats = Some []\<rparr>"

definition loadStats :: "LocalStorage \<Rightarrow> string \<Rightarrow> Stats" where
  "loadStats ls now =
     (case ls STATS_KEY of
        Some (StatsJson parsed) \<Rightarrow> parsed\<lparr>wordStats := Some (wordStatsOrEmpty parsed)\<rparr>
      | Some Unparsable \<Rightarrow> defaultStats now
      | None \<Rightarrow> defaultStats now)"

definition saveStats :: "bool \<Rightarrow> Stats \<Rightarrow> LocalStorage \<Rightarrow> LocalStorage" where
  "saveStats writable stats ls = (if writable then ls(STATS_KEY \<mapsto> StatsJson stats) else ls)"

definition clearStats :: "bool \<Rightarrow> string \<Rightarrow> LocalStorage \<Rightarrow> LocalStorage \<times> Stats" where
  "clearStats writable now ls = ((if writable then ls(STATS_KEY := None) else ls), defaultStats now)"

section \<open>The statistics update on a heap\<close>

text \<open>
  Whether \<open>updateWordStats\<close> mutates the record it is given cannot be read off a function
  on values. \<open>updateWordStatsHeap\<close> is the same source function on a heap of objects: the
  statistics record, the per-word dictionary and each entry are objects at an address, a
  record refers to its dictionary and a dictionary to its entries by address. An object
  literal allocates a new object at the end of the heap; the source function assigns to no
  property of an existing object. The three objects of the returned expression are
  allocated innermost first, each one complete. An inherited value is a function outside
  this heap; only its missing \<open>attempts\<close> and \<open>correct\<close> are read. An address that holds no
  object of the expected kind makes the model return \<open>None\<close>.
\<close>

type_synonym addr = nat

datatype JsObject =
    StatsObj int int string "addr option"
  | DictObj "(string \<times> addr) list"
  | WordStatsObj JsNumber JsNumber string

type_synonym Heap = "JsObject list"

definition heapGet :: "Heap \<Rightarrow> addr \<Rightarrow> JsObject option" where
  "heapGet h a = (if a < length h then Some (h ! a) else None)"

definition alloc :: "JsObject \<Rightarrow> Heap \<Rightarrow> Heap \<times> addr" where
  "alloc obj h = (h @ [obj], length h)"

definition updateWordStatsHeap ::
  "addr \<Rightarrow> string \<Rightarrow> bool \<Rightarrow> string \<Rightarrow> Heap \<Rightarrow> (Heap \<times> addr) option" where
  "updateWordStatsHeap statsRef wordId isCorrect now h =
     (case heapGet h statsRef of
        Some (StatsObj c a d ws) \<Rightarrow>
          (let (h1, wordStats') = (case ws of None \<Rightarrow> alloc (DictObj []) h | Some r \<Rightarrow> (h, r))
           in case heapGet h1 wordStats' of
                Some (DictObj entries) \<Rightarrow>
                  (let (h2, currentWordStats) =
                         (case map_of entries wordId of
                            Some r \<Rightarrow> (h1, heapGet h1 r)
                          | None \<Rightarrow>
                              if wordId \<in> set objectPrototypeNames
                              then (h1, Some (WordStatsObj NaN NaN []))
                              else (h1 @ [WordStatsObj 0 0 now], Some (WordStatsObj 0 0 now)))
                   in case currentWordStats of
                        Some (WordStatsObj ca cc cl) \<Rightarrow>
                          (let (h3, entry) =
                                 alloc (WordStatsObj (ca + 1) (cc + (if isCorrect then 1 else 0)) now) h2;
                               (h4, dict) = alloc (DictObj (setProp wordId entry entries)) h3;
                               (h5, result) = alloc (StatsObj c a d (Some dict)) h4
                           in Some (h5, result))
                      | _ \<Rightarrow> None)
              | _ \<Rightarrow> None)
      | _ \<Rightarrow> None)"

text \<open>
  What an address stands for: \<open>reprStats h a st\<close> holds when the object at \<open>a\<close> in the
  heap \<open>h\<close>, with the dictionary and the entries it refers to, is the record \<open>st\<close>.
\<close>

definition reprWordStats :: "Heap \<Rightarrow> addr \<Rightarrow> WordStats \<Rightarrow> bool" where
  "reprWordStats h a ws =
     (heapGet h a = Some (WordStatsObj (attempts_w ws) (correct_w ws) (lastAttempted ws)))"

definition reprEntry :: "Heap \<Rightarrow> string \<times> addr \<Rightarrow> string \<times> WordStats \<Rightarrow> bool" where
  "reprEntry h e p = (fst e = fst p \<and> reprWordStats h (snd e) (snd p))"

definition reprDict :: "Heap \<Rightarrow> addr \<Rightarrow> WordStatsMap \<Rightarrow> bool" where
  "reprDict h a m =
     (\<exists>entries. heapGet h a = Some (DictObj entries) \<and> list_all2 (reprEntry h) entries m)"

definition reprStats :: "Heap \<Rightarrow> addr \<Rightarrow> Stats \<Rightarrow> bool" where
  "reprStats h a st =
     (\<exists>ws. heapGet h a = Some (StatsObj (correct_s st) (attempts_s st) (lastSessionDate st) ws)
        \<and> (case ws of
              None \<Rightarrow> wordStats st = None
            | Some d \<Rightarrow> (\<exists>m. wordStats st = Some m \<and> reprDict h d m)))"

section \<open>Filtering (\<open>store/helpers.ts\<close>)\<close>

text \<open>
  The optional parameters are \<open>option\<close>s. \<open>!difficulty\<close> holds for an absent selector and
  for the empty string; an array, even an empty one, is truthy.
\<close>

definition filterVocab :: "VocabItem list \<Rightarrow> string option \<Rightarrow> string list option \<Rightarrow> VocabItem list" where
  "filterVocab items difficulty failedWordIds =
     filter (\<lambda>it.
        if difficulty = Some ''failed'' \<and> failedWordIds \<noteq> None
          then (case failedWordIds of Some ids \<Rightarrow> id_v it \<in> set ids | None \<Rightarrow> False)
        else if difficulty = None \<or> difficulty = Some [] \<or> difficulty = Some ''all'' then True
        else if Some (difficulty_v it) \<noteq> difficulty then False
        else True) items"

section \<open>Randomness (\<open>store/helpers.ts\<close>)\<close>

text \<open>
  \<open>Math.random\<close> is an explicit stream of draws \<open>rnd :: nat \<Rightarrow> nat\<close>.

  \<open>shuffleArray\<close> is the Fisher-Yates loop of the source: for \<open>i\<close> from \<open>length - 1\<close> down
  to \<open>1\<close> it swaps positions \<open>i\<close> and \<open>j = floor (random * (i + 1))\<close>, here \<open>rnd i mod (i + 1)\<close>.
\<close>

primrec shuffleLoop :: "(nat \<Rightarrow> nat) \<Rightarrow> nat \<Rightarrow> 'a list \<Rightarrow> 'a list" where
  "shuffleLoop rnd 0 copy = copy"
| "shuffleLoop rnd (Suc k) copy =
     (let i = Suc k; j = rnd i mod (i + 1)
      in shuffleLoop rnd k (copy[i := copy ! j, j := copy ! i]))"

definition shuffleArray :: "(nat \<Rightarrow> nat) \<Rightarrow> 'a list \<Rightarrow> 'a list" where
  "shuffleArray rnd items = shuffleLoop rnd (length items - 1) items"

text \<open>
  \<open>xs.sort(() => Math.random() - 0.5)\<close>: the comparator ignores its arguments, so the
  engine returns the elements in an order that only the draws decide. The model picks the
  elements one after the other, the \<open>n\<close>-th pick being decided by a draw; every
  permutation of the input is the result for some stream of draws.
\<close>

primrec sortRandomLoop :: "(nat \<Rightarrow> nat) \<Rightarrow> nat \<Rightarrow> 'a list \<Rightarrow> 'a list" where
  "sortRandomLoop rnd 0 xs = []"
| "sortRandomLoop rnd (Suc n) xs =
     (if xs = [] then []
      else let i = rnd n mod length xs
           in xs ! i # sortRandomLoop rnd n (take i xs @ drop (Suc i) xs))"

definition sortRandom :: "(nat \<Rightarrow> nat) \<Rightarrow> 'a list \<Rightarrow> 'a list" where
  "sortRandom rnd xs = sortRandomLoop rnd (length xs) xs"

section \<open>Choices (\<open>store/helpers.ts\<close>)\<close>

definition getChoices ::
  "VocabItem list \<Rightarrow> VocabItem \<Rightarrow> Mode \<Rightarrow> (nat \<Rightarrow> nat) \<Rightarrow> (nat \<Rightarrow> nat) \<Rightarrow> Choice list" where
  "getChoices vocab current mode rnd1 rnd2 =
     (let others = filter (\<lambda>v. id_v v \<noteq> id_v current) vocab;
          shuffled = sortRandom rnd1 others;
          distractors = take 3 shuffled;
          correct = (if mode = DeToEn then en current else de current);
          options = \<lparr>text_c = correct, isCorrect_c = True\<rparr> #
                    map (\<lambda>v. \<lparr>text_c = (if mode = DeToEn then en v else de v),
                              isCorrect_c = False\<rparr>) distractors
      in sortRandom rnd2 options)"

section \<open>Strings\<close>

text \<open>
  \<open>String.prototype.trim\<close> removes white space and line terminators from both ends; below
  256 these are the code units 9 to 13, 32 and 160. \<open>toLowerCase\<close> maps, below 256, the
  letters \<open>A\<close> to \<open>Z\<close> (65 to 90) and the Latin-1 capitals 192 to 222 other than the
  multiplication sign 215 to the code unit 32 above, and keeps every other code unit.
\<close>

definition isWhiteSpace :: "char \<Rightarrow> bool" where
  "isWhiteSpace c = (let n = (of_char c :: nat) in (9 \<le> n \<and> n \<le> 13) \<or> n = 32 \<or> n = 160)"

definition trim :: "string \<Rightarrow> string" where
  "trim s = rev (dropWhile isWhiteSpace (rev (dropWhile isWhiteSpace s)))"

definition isUpperCase :: "char \<Rightarrow> bool" where
  "isUpperCase c =
     (let n = (of_char c :: nat) in (65 \<le> n \<and> n \<le> 90) \<or> (192 \<le> n \<and> n \<le> 222 \<and> n \<noteq> 215))"

definition toLowerCaseChar :: "char \<Rightarrow> char" where
  "toLowerCaseChar c = (if isUpperCase c then char_of ((of_char c :: nat) + 32) else c)"

definition toLowerCase :: "string \<Rightarrow> string" where
  "toLowerCase s = map toLowerCaseChar s"

section \<open>The quiz store (\<open>store/quizStore.ts\<close>)\<close>

record QuizState =
  index :: nat
  mode :: Mode
  difficulty :: string
  shuffled :: "VocabItem list"
  displayWord :: "VocabItem option"
  displayChoices :: "Choice list"
  hasAnswered :: bool
  userInput :: string
  lastResult :: "bool option"
  showHelp :: bool
  menuOpen :: bool
  statsExpanded :: bool
  isTransitioning :: bool
  stats :: Stats
  correct :: int
  attempts :: int

text \<open>Reading \<open>xs[i]\<close>: \<open>undefined\<close> outside the array.\<close>

definition arrayGet :: "'a list \<Rightarrow> nat \<Rightarrow> 'a option" where
  "arrayGet xs i = (if i < length xs then Some (xs ! i) else None)"

text \<open>
  The actions of the store. Each takes the state that \<open>get()\<close> returns and gives the state
  after its \<open>set\<close>; a local that shares its name with a field is primed.
\<close>

definition initializeQuiz ::
  "VocabItem list \<Rightarrow> string option \<Rightarrow> (nat \<Rightarrow> nat) \<Rightarrow> (nat \<Rightarrow> nat) \<Rightarrow> (nat \<Rightarrow> nat) \<Rightarrow>
     QuizState \<Rightarrow> QuizState" where
  "initializeQuiz vocab difficultyArg rndS rnd1 rnd2 state =
     (let difficulty' = (case difficultyArg of None \<Rightarrow> ''all'' | Some d \<Rightarrow> d);
          currentStats = stats state;
          failedWordIds = getFailedWordIds currentStats;
          filtered = filterVocab vocab (Some difficulty') (Some failedWordIds);
          shuffled' = shuffleArray rndS filtered;
          firstWord = arrayGet shuffled' 0;
          choices = (case firstWord of None \<Rightarrow> []
                     | Some w \<Rightarrow> getChoices shuffled' w (mode state) rnd1 rnd2)
      in state\<lparr>difficulty := difficulty', shuffled := shuffled', displayWord := firstWord,
               displayChoices := choices, index := 0\<rparr>)"

definition setMode :: "Mode \<Rightarrow> (nat \<Rightarrow> nat) \<Rightarrow> (nat \<Rightarrow> nat) \<Rightarrow> QuizState \<Rightarrow> QuizState" where
  "setMode newMode rnd1 rnd2 state =
     (case displayWord state of
        Some currentWord \<Rightarrow>
          (let newChoices = getChoices (shuffled state) currentWord newMode rnd1 rnd2
           in state\<lparr>mode := newMode, displayChoices := newChoices\<rparr>)
      | None \<Rightarrow> state\<lparr>mode := newMode\<rparr>)"

definition setDifficulty ::
  "string \<Rightarrow> VocabItem list \<Rightarrow> (nat \<Rightarrow> nat) \<Rightarrow> (nat \<Rightarrow> nat) \<Rightarrow> (nat \<Rightarrow> nat) \<Rightarrow>
     QuizState \<Rightarrow> QuizState" where
  "setDifficulty difficulty' vocab rndS rnd1 rnd2 state =
     (let failedWordIds = getFailedWordIds (stats state);
          filtered = filterVocab vocab (Some difficulty') (Some failedWordIds);
          shuffled' = shuffleArray rndS filtered;
          firstWord = arrayGet shuffled' 0;
          choices = (case firstWord of None \<Rightarrow> []
                     | Some w \<Rightarrow> getChoices shuffled' w (mode state) rnd1 rnd2)
      in state\<lparr>difficulty := difficulty', shuffled := shuffled', displayWord := firstWord,
               displayChoices := choices, index := 0, showHelp := False\<rparr>)"

text \<open>
  \<open>handleAnswer\<close> sets the state and then calls \<open>setTimeout\<close>. \<open>handleAnswerSet\<close> is the
  state it sets; the timer is in \<open>handleAnswer\<close> below, on the store together with its
  pending timers. \<open>now1\<close> is the clock read inside \<open>updateWordStats\<close>, \<open>now2\<close> the one read
  for \<open>lastSessionDate\<close>.
\<close>

definition handleAnswerSet :: "bool \<Rightarrow> VocabItem \<Rightarrow> string \<Rightarrow> string \<Rightarrow> QuizState \<Rightarrow> QuizState" where
  "handleAnswerSet isCorrect currentWord now1 now2 state =
     (let newAttempts = attempts state + 1;
          newCorrect = correct state + (if isCorrect then 1 else 0);
          updatedStats = updateWordStats (stats state) (id_v currentWord) isCorrect now1
      in state\<lparr>hasAnswered := True,
               lastResult := Some isCorrect,
               showHelp := False,
               isTransitioning := True,
               stats := updatedStats\<lparr>correct_s := newCorrect, attempts_s := newAttempts,
                                      lastSessionDate := now2\<rparr>,
               correct := newCorrect,
               attempts := newAttempts\<rparr>)"

definition advanceToNextQuestion :: "(nat \<Rightarrow> nat) \<Rightarrow> (nat \<Rightarrow> nat) \<Rightarrow> QuizState \<Rightarrow> QuizState" where
  "advanceToNextQuestion rnd1 rnd2 state =
     (let nextIndex = index state + 1;
          nextWord = arrayGet (shuffled state) (nextIndex mod max 1 (length (shuffled state)));
          nextChoices = (case nextWord of None \<Rightarrow> []
                         | Some w \<Rightarrow> getChoices (shuffled state) w (mode state) rnd1 rnd2)
      in state\<lparr>index := nextIndex, displayWord := nextWord, displayChoices := nextChoices,
               hasAnswered := False, userInput := [], lastResult := None,
               isTransitioning := False\<rparr>)"

definition setUserInput :: "string \<Rightarrow> QuizState \<Rightarrow> QuizState" where
  "setUserInput input state = state\<lparr>userInput := input\<rparr>"

definition toggleShowHelp :: "QuizState \<Rightarrow> QuizState" where
  "toggleShowHelp state = state\<lparr>showHelp := \<not> showHelp state\<rparr>"

definition setShowHelp :: "bool \<Rightarrow> QuizState \<Rightarrow> QuizState" where
  "setShowHelp show state = state\<lparr>showHelp := show\<rparr>"

definition setMenuOpen :: "bool \<Rightarrow> QuizState \<Rightarrow> QuizState" where
  "setMenuOpen open state = state\<lparr>menuOpen := open\<rparr>"

definition setStatsExpanded :: "bool \<Rightarrow> QuizState \<Rightarrow> QuizState" where
  "setStatsExpanded expanded state = state\<lparr>statsExpanded := expanded\<rparr>"

definition restartQuiz :: "QuizState \<Rightarrow> QuizState" where
  "restartQuiz state =
     state\<lparr>index := 0, hasAnswered := False, userInput := [], lastResult := None,
           showHelp := False, menuOpen := False\<rparr>"

text \<open>
  \<open>resetStats\<close> uses the record that \<open>clearStats\<close> returns, which does not depend on the
  stored content; the removal of the stored item is an effect on \<open>localStorage\<close>, which is
  not part of the store's state.
\<close>

definition resetStats :: "string \<Rightarrow> QuizState \<Rightarrow> QuizState" where
  "resetStats now state =
     (let resetStats' = defaultStats now
      in state\<lparr>stats := resetStats', correct := correct_s resetStats',
               attempts := attempts_s resetStats', menuOpen := False\<rparr>)"

subsection \<open>The store with its pending timers\<close>

text \<open>
  \<open>setTimeout(() => get().advanceToNextQuestion(), 2500)\<close> leaves a timer behind. All
  timers carry the same callback and nothing in the source cancels one, so the number of
  pending timers describes them.
\<close>

record Store =
  quiz :: QuizState
  pendingAdvances :: nat

definition handleAnswer :: "bool \<Rightarrow> VocabItem \<Rightarrow> string \<Rightarrow> string \<Rightarrow> Store \<Rightarrow> Store" where
  "handleAnswer isCorrect currentWord now1 now2 store =
     \<lparr>quiz = handleAnswerSet isCorrect currentWord now1 now2 (quiz store),
      pendingAdvances = Suc (pendingAdvances store)\<rparr>"

definition submitTextAnswer :: "string \<Rightarrow> VocabItem \<Rightarrow> string \<Rightarrow> string \<Rightarrow> Store \<Rightarrow> Store" where
  "submitTextAnswer correctAnswer currentWord now1 now2 store =
     (let state = quiz store
      in if trim (userInput state) = [] \<or> hasAnswered state then store
         else let isCorrect = (toLowerCase (trim (userInput state)) = toLowerCase correctAnswer)
              in handleAnswer isCorrect currentWord now1 now2 store)"

text \<open>A pending timer fires: it calls \<open>advanceToNextQuestion\<close> on the state of that moment.\<close>

definition timerFires :: "(nat \<Rightarrow> nat) \<Rightarrow> (nat \<Rightarrow> nat) \<Rightarrow> Store \<Rightarrow> Store" where
  "timerFires rnd1 rnd2 store =
     (if pendingAdvances store = 0 then store
      else \<lparr>quiz = advanceToNextQuestion rnd1 rnd2 (quiz store),
            pendingAdvances = pendingAdvances store - 1\<rparr>)"

text \<open>
  The choice buttons of the component that renders the store (\<open>App\<close>): the component shows
  \<open>Loading...\<close> without a displayed word and a notice for an empty deck; it renders the
  buttons only while \<open>showHelp\<close> holds, each with \<open>disabled={hasAnswered}\<close> and
  \<open>onClick={() => handleAnswer(choice.isCorrect, displayWord)}\<close>. A click on the button of
  the \<open>i\<close>-th choice reaches \<open>handleAnswer\<close> only when the button is there and enabled.
\<close>

definition choiceButtonClick :: "nat \<Rightarrow> string \<Rightarrow> string \<Rightarrow> Store \<Rightarrow> Store" where
  "choiceButtonClick i now1 now2 store =
     (let state = quiz store
      in case displayWord state of
           None \<Rightarrow> store
         | Some w \<Rightarrow>
             if shuffled state = [] \<or> \<not> showHelp state \<or> hasAnswered state then store
             else (case arrayGet (displayChoices state) i of
                     None \<Rightarrow> store
                   | Some choice \<Rightarrow> handleAnswer (isCorrect_c choice) w now1 now2 store))"

text \<open>
  The state the store is created with. \<open>migrateOldStats\<close> returns the old record when it
  holds any attempt, and nothing otherwise. The \<open>persist\<close> middleware of the library, which
  may put persisted values into \<open>stats\<close>, \<open>correct\<close> and \<open>attempts\<close> at start-up and writes
  them back after every change, is not part of the source and not modelled.
\<close>

definition migrateOldStats :: "LocalStorage \<Rightarrow> string \<Rightarrow> Stats option" where
  "migrateOldStats ls now =
     (let oldStats = loadStats ls now
      in if attempts_s oldStats > 0 \<or> correct_s oldStats > 0 then Some oldStats else None)"

definition initialState :: "LocalStorage \<Rightarrow> string \<Rightarrow> string \<Rightarrow> QuizState" where
  "initialState ls now1 now2 =
     (let migratedStats = migrateOldStats ls now1
      in \<lparr>index = 0, mode = DeToEn, difficulty = ''all'', shuffled = [], displayWord = None,
          displayChoices = [], hasAnswered = False, userInput = [], lastResult = None,
          showHelp = False, menuOpen = False, statsExpanded = False, isTransitioning = False,
          stats = (case migratedStats of Some st \<Rightarrow> st | None \<Rightarrow> defaultStats now2),
          correct = (case migratedStats of Some st \<Rightarrow> correct_s st | None \<Rightarrow> 0),
          attempts = (case migratedStats of Some st \<Rightarrow> attempts_s st | None \<Rightarrow> 0)\<rparr>)"

text \<open>The operations a user or a timer can apply to the store, with the draws and clock
  readings each one consumes.\<close>

datatype Action =
    InitializeQuiz "VocabItem list" "string option" "nat \<Rightarrow> nat" "nat \<Rightarrow> nat" "nat \<Rightarrow> nat"
  | SetMode Mode "nat \<Rightarrow> nat" "nat \<Rightarrow> nat"
  | SetDifficulty string "VocabItem list" "nat \<Rightarrow> nat" "nat \<Rightarrow> nat" "nat \<Rightarrow> nat"
  | HandleAnswer bool VocabItem string string
  | AdvanceToNextQuestion "nat \<Rightarrow> nat" "nat \<Rightarrow> nat"
  | TimerFires "nat \<Rightarrow> nat" "nat \<Rightarrow> nat"
  | SetUserInput string
  | SubmitTextAnswer string VocabItem string string
  | ToggleShowHelp
  | SetShowHelp bool
  | SetMenuOpen bool
  | SetStatsExpanded bool
  | ResetStats string
  | RestartQuiz

fun apply_action :: "Action \<Rightarrow> Store \<Rightarrow> Store" where
  "apply_action (InitializeQuiz vocab d rndS rnd1 rnd2) store =
     store\<lparr>quiz := initializeQuiz vocab d rndS rnd1 rnd2 (quiz store)\<rparr>"
| "apply_action (SetMode m rnd1 rnd2) store = store\<lparr>quiz := setMode m rnd1 rnd2 (quiz store)\<rparr>"
| "apply_action (SetDifficulty d vocab rndS rnd1 rnd2) store =
     store\<lparr>quiz := setDifficulty d vocab rndS rnd1 rnd2 (quiz store)\<rparr>"
| "apply_action (HandleAnswer isCorrect w now1 now2) store = handleAnswer isCorrect w now1 now2 store"
| "apply_action (AdvanceToNextQuestion rnd1 rnd2) store =
     store\<lparr>quiz := advanceToNextQuestion rnd1 rnd2 (quiz store)\<rparr>"
| "apply_action (TimerFires rnd1 rnd2) store = timerFires rnd1 rnd2 store"
| "apply_action (SetUserInput input) store = store\<lparr>quiz := setUserInput input (quiz store)\<rparr>"
| "apply_action (SubmitTextAnswer correctAnswer w now1 now2) store =
     submitTextAnswer correctAnswer w now1 now2 store"
| "apply_action ToggleShowHelp store = store\<lparr>quiz := toggleShowHelp (quiz store)\<rparr>"
| "apply_action (SetShowHelp b) store = store\<lparr>quiz := setShowHelp b (quiz store)\<rparr>"
| "apply_action (SetMenuOpen b) store = store\<lparr>quiz := setMenuOpen b (quiz store)\<rparr>"
| "apply_action (SetStatsExpanded b) store = store\<lparr>quiz := setStatsExpanded b (quiz store)\<rparr>"
| "apply_action (ResetStats now) store = store\<lparr>quiz := resetStats now (quiz store)\<rparr>"
| "apply_action RestartQuiz store = store\<lparr>quiz := restartQuiz (quiz store)\<rparr>"

text \<open>The states the store can be in: the created one, and any state an action leads to.\<close>

inductive reachable :: "Store \<Rightarrow> bool" where
  created: "reachable \<lparr>quiz = initialState ls now1 now2, pendingAdvances = 0\<rparr>"
| after_action: "reachable store \<Longrightarrow> reachable (apply_action a store)"

text \<open>
  The actions that load a question into the display (\<open>initializeQuiz\<close>, \<open>setDifficulty\<close>,
  \<open>advanceToNextQuestion\<close>, directly or from a timer), and the one that regenerates the
  choices of the displayed word (\<open>setMode\<close>).
\<close>

fun loadsQuestion :: "Action \<Rightarrow> bool" where
  "loadsQuestion (InitializeQuiz vocab d rndS rnd1 rnd2) = True"
| "loadsQuestion (SetDifficulty d vocab rndS rnd1 rnd2) = True"
| "loadsQuestion (AdvanceToNextQuestion rnd1 rnd2) = True"
| "loadsQuestion (TimerFires rnd1 rnd2) = True"
| "loadsQuestion a = False"

fun regeneratesChoices :: "Action \<Rightarrow> bool" where
  "regeneratesChoices (SetMode m rnd1 rnd2) = True"
| "regeneratesChoices a = False"

text \<open>
  The word on display is the deck's item at the current position, read the way
  \<open>advanceToNextQuestion\<close> reads it (nothing for an empty deck).
\<close>

definition inSync :: "QuizState \<Rightarrow> bool" where
  "inSync state =
     (displayWord state =
        arrayGet (shuffled state) (index state mod max 1 (length (shuffled state))))"

section \<open>The text match in the spec's words\<close>

text \<open>
  The spec calls a typed answer correct when the input and the target-language term are a
  case-insensitive, whitespace-trimmed exact match. Written out independently of the code:
  two code units are the same letter up to case when they are equal or one is the capital
  of the other; two texts match up to case when they have the same length and agree
  position by position up to case; \<open>core\<close> is the trimmed form of a text when the text is
  \<open>core\<close> between white space and \<open>core\<close> neither starts nor ends with white space. The
  input and the term match when their trimmed forms match up to case.
\<close>

definition spec_sameLetter :: "char \<Rightarrow> char \<Rightarrow> bool" where
  "spec_sameLetter a b =
     (a = b \<or> (isUpperCase a \<and> (of_char b :: nat) = of_char a + 32)
            \<or> (isUpperCase b \<and> (of_char a :: nat) = of_char b + 32))"

definition spec_caseInsensitiveEqual :: "string \<Rightarrow> string \<Rightarrow> bool" where
  "spec_caseInsensitiveEqual a b = list_all2 spec_sameLetter a b"

definition spec_trimmedForm :: "string \<Rightarrow> string \<Rightarrow> bool" where
  "spec_trimmedForm core s =
     (\<exists>pre suf. s = pre @ core @ suf \<and> list_all isWhiteSpace pre \<and> list_all isWhiteSpace suf
        \<and> (core = [] \<or> (\<not> isWhiteSpace (hd core) \<and> \<not> isWhiteSpace (last core))))"

definition spec_textMatch :: "string \<Rightarrow> string \<Rightarrow> bool" where
  "spec_textMatch input term =
     (\<exists>inputCore termCore. spec_trimmedForm inputCore input \<and> spec_trimmedForm termCore term
        \<and> spec_caseInsensitiveEqual inputCore termCore)"

text \<open>
  The one-sided match, in the same words: the trimmed form of the input matches the term,
  taken as it is, up to case.
\<close>

definition spec_trimmedInputMatch :: "string \<Rightarrow> string \<Rightarrow> bool" where
  "spec_trimmedInputMatch input term =
     (\<exists>inputCore. spec_trimmedForm inputCore input \<and> spec_caseInsensitiveEqual inputCore term)"

section \<open>Sample data\<close>

text \<open>The five items of the vocabulary used in the store's tests (the \<open>u\<close> with diaeresis
  is the code unit 252).\<close>

definition hallo :: VocabItem where
  "hallo = \<lparr>id_v = ''1'', de = ''Hallo'', en = ''Hello'', difficulty_v = ''easy'', tags = []\<rparr>"

definition tschuess :: VocabItem where
  "tschuess = \<lparr>id_v = ''2'', de = ''Tsch'' @ [char_of (252 :: nat)] @ ''ss'', en = ''Goodbye'',
                 difficulty_v = ''easy'', tags = []\<rparr>"

definition danke :: VocabItem where
  "danke = \<lparr>id_v = ''3'', de = ''Danke'', en = ''Thank you'', difficulty_v = ''medium'', tags = []\<rparr>"

definition bitte :: VocabItem where
  "bitte = \<lparr>id_v = ''4'', de = ''Bitte'', en = ''Please'', difficulty_v = ''medium'', tags = []\<rparr>"

definition entschuldigung :: VocabItem where
  "entschuldigung = \<lparr>id_v = ''5'', de = ''Entschuldigung'', en = ''Excuse me'',
                       difficulty_v = ''hard'', tags = []\<rparr>"


definition mockVocab :: "VocabItem list" where
  "mockVocab = [hallo, tschuess, danke, bitte, entschuldigung]"

text \<open>A statistics record in which word \<open>1\<close> has one wrong answer and word \<open>3\<close> has none,
  and the same record as objects on a heap: two entries, their dictionary, and the record
  at address 3.\<close>

definition sampleStats :: Stats where
  "sampleStats = \<lparr>correct_s = 2, attempts_s = 3, lastSessionDate = ''2025-01-01'',
     wordStats = Some [(''1'', \<lparr>attempts_w = 2, correct_w = 1, lastAttempted = ''2025-01-01''\<rparr>),
                       (''3'', \<lparr>attempts_w = 1, correct_w = 1, lastAttempted = ''2025-01-01''\<rparr>)]\<rparr>"

definition sampleHeap :: Heap where
  "sampleHeap =
     [WordStatsObj 2 1 ''2025-01-01'',
      WordStatsObj 1 1 ''2025-01-01'',
      DictObj [(''1'', 0), (''3'', 1)],
      StatsObj 2 3 ''2025-01-01'' (Some 2)]"

text \<open>Stored content: nothing, a record that \<open>saveStats\<close> wrote, and a record from before
  the per-word map existed.\<close>

definition emptyStorage :: LocalStorage where
  "emptyStorage = (\<lambda>_. None)"

definition savedStorage :: LocalStorage where
  "savedStorage = emptyStorage(STATS_KEY \<mapsto> StatsJson sampleStats)"

definition oldRecord :: Stats where
  "oldRecord = \<lparr>correct_s = 1, attempts_s = 2, lastSessionDate = ''2024-01-01'', wordStats = None\<rparr>"

definition oldStorage :: LocalStorage where
  "oldStorage = emptyStorage(STATS_KEY \<mapsto> StatsJson oldRecord)"

text \<open>
  A short session, with all draws \<open>0\<close>: the store as created over an empty \<open>localStorage\<close>;
  then initialised with two items (the shuffle puts \<open>danke\<close> first); then answered
  correctly; then restarted while the timer of that answer is pending. Besides, the started
  session with a blank text typed in; advanced to \<open>hallo\<close> with \<open>hello\<close> typed in between
  blanks, with \<open>hello\<close> alone, or with \<open>Hello\<close> and a blank typed in; the answered session with a text typed in
  and the help switched on again; and the session advanced once and then restarted.
\<close>

definition noDraws :: "nat \<Rightarrow> nat" where
  "noDraws = (\<lambda>_. 0)"

definition createdStore :: Store where
  "createdStore = \<lparr>quiz = initialState emptyStorage ''t0'' ''t0'', pendingAdvances = 0\<rparr>"

definition startedStore :: Store where
  "startedStore = apply_action (InitializeQuiz [hallo, danke] None noDraws noDraws noDraws) createdStore"

definition answeredStore :: Store where
  "answeredStore = apply_action (HandleAnswer True danke ''t1'' ''t2'') startedStore"

definition restartedWhilePending :: Store where
  "restartedWhilePending = apply_action RestartQuiz answeredStore"

definition blankInputStore :: Store where
  "blankInputStore = apply_action (SetUserInput ''  '') startedStore"

definition typedStore :: Store where
  "typedStore =
     apply_action (SetUserInput '' hello '')
       (apply_action (AdvanceToNextQuestion noDraws noDraws) startedStore)"

definition helloStore :: Store where
  "helloStore =
     apply_action (SetUserInput ''hello'')
       (apply_action (AdvanceToNextQuestion noDraws noDraws) startedStore)"

definition paddedStore :: Store where
  "paddedStore =
     apply_action (SetUserInput ''Hello '')
       (apply_action (AdvanceToNextQuestion noDraws noDraws) startedStore)"

definition answeredHelpStore :: Store where
  "answeredHelpStore =
     apply_action (SetShowHelp True) (apply_action (SetUserInput ''Thank you'') answeredStore)"



definition restartedStore :: Store where
  "restartedStore =
     apply_action RestartQuiz (apply_action (AdvanceToNextQuestion noDraws noDraws) startedStore)"

section \<open>Helper facts\<close>

lemma map_of_setProp: "map_of (setProp k v al) = (map_of al)(k \<mapsto> v)"
  by (induction al) (auto simp: fun_eq_iff)

lemma keys_setProp: "set (map fst (setProp k v al)) = insert k (set (map fst al))"
  by (induction al) auto

lemma distinct_setProp: "distinct (map fst al) \<Longrightarrow> distinct (map fst (setProp k v al))"
proof (induction al)
  case Nil
  then show ?case by simp
next
  case (Cons p ps)
  have "fst p \<notin> set (map fst (setProp k v ps))" if "fst p \<noteq> k"
    using that Cons.prems by (simp only: keys_setProp) simp
  then show ?case using Cons by auto
qed

text \<open>A new array index goes between the array indices, any other new key to the end.\<close>

lemma setProp_order:
  "setProp ''2'' (0 :: nat) [(''1'', 1), (''10'', 2), (''x'', 3)]
     = [(''1'', 1), (''2'', 0), (''10'', 2), (''x'', 3)]"
  "setProp ''y'' (0 :: nat) [(''1'', 1), (''x'', 3)] = [(''1'', 1), (''x'', 3), (''y'', 0)]"
  "setProp ''01'' (0 :: nat) [(''1'', 1), (''x'', 3)] = [(''1'', 1), (''x'', 3), (''01'', 0)]"
  by (simp_all add: keyBefore_def arrayIndex_def isDigit_def digitsValue_def)

subsection \<open>Numbers\<close>

lemma numeral_JsNumber: "numeral k = Number (numeral k)"
proof (induction k)
  case One
  show ?case by (simp add: one_JsNumber_def)
next
  case (Bit0 k)
  have "numeral (num.Bit0 k) = (numeral k :: JsNumber) + numeral k"
    by (rule numeral_Bit0)
  also have "\<dots> = Number (numeral k) + Number (numeral k)"
    by (simp only: Bit0.IH)
  also have "\<dots> = Number (numeral (num.Bit0 k))"
    by (simp add: plus_JsNumber_def numeral_Bit0)
  finally show ?case .
next
  case (Bit1 k)
  have "numeral (num.Bit1 k) = (numeral k :: JsNumber) + numeral k + 1"
    by (rule numeral_Bit1)
  also have "\<dots> = Number (numeral k) + Number (numeral k) + Number 1"
    by (simp only: Bit1.IH one_JsNumber_def)
  also have "\<dots> = Number (numeral (num.Bit1 k))"
    by (simp add: plus_JsNumber_def numeral_Bit1)
  finally show ?case .
qed

lemmas JsNumber_simps =
  zero_JsNumber_def one_JsNumber_def numeral_JsNumber plus_JsNumber_def less_JsNumber_def
  less_eq_JsNumber_def

lemma JsNumber_less_irrefl: "\<not> (a :: JsNumber) < a"
  by (cases a) (simp_all add: less_JsNumber_def)


lemma filter_setProp_other:
  "filter (\<lambda>p. fst p \<noteq> k) (setProp k v al) = filter (\<lambda>p. fst p \<noteq> k) al"
  by (induction al) auto

subsection \<open>The random sort and the shuffle return permutations\<close>

lemma mset_remove_nth:
  "i < length xs \<Longrightarrow> add_mset (xs ! i) (mset (take i xs @ drop (Suc i) xs)) = mset xs"
proof -
  assume "i < length xs"
  then have "xs = take i xs @ xs ! i # drop (Suc i) xs"
    by (rule id_take_nth_drop)
  then have "mset xs = mset (take i xs @ xs ! i # drop (Suc i) xs)"
    by simp
  then show ?thesis by simp
qed

lemma mset_sortRandomLoop:
  "length xs \<le> n \<Longrightarrow> mset (sortRandomLoop rnd n xs) = mset xs"
proof (induction n arbitrary: xs)
  case 0
  then show ?case by simp
next
  case (Suc n)
  show ?case
  proof (cases "xs = []")
    case True
    then show ?thesis by simp
  next
    case False
    define i where "i = rnd n mod length xs"
    have i: "i < length xs" using False by (simp add: i_def)
    have "length (take i xs @ drop (Suc i) xs) \<le> n"
      using Suc.prems i by simp
    then have "mset (sortRandomLoop rnd n (take i xs @ drop (Suc i) xs)) = mset (take i xs @ drop (Suc i) xs)"
      by (rule Suc.IH)
    then show ?thesis
      using False mset_remove_nth [OF i] by (simp add: Let_def i_def)
  qed
qed

lemma mset_sortRandom: "mset (sortRandom rnd xs) = mset xs"
  by (simp add: sortRandom_def mset_sortRandomLoop)

lemma sortRandomLoop_cong:
  "(\<And>k. k < n \<Longrightarrow> rnd k = rnd' k) \<Longrightarrow> sortRandomLoop rnd n xs = sortRandomLoop rnd' n xs"
  by (induction n arbitrary: xs) (simp_all add: Let_def)

text \<open>Every order of the elements is the result of the random sort for some draws.\<close>

lemma sortRandom_reaches:
  "mset ys = mset xs \<Longrightarrow> \<exists>rnd. sortRandomLoop rnd (length xs) xs = ys"
proof (induction ys arbitrary: xs)
  case Nil
  then show ?case by simp
next
  case (Cons y ys)
  from Cons.prems have "y \<in> set xs"
    by (metis list.set_intros(1) set_mset_mset)
  then obtain i where i: "i < length xs" "xs ! i = y"
    by (auto simp: in_set_conv_nth)
  let ?rest = "take i xs @ drop (Suc i) xs"
  have "add_mset y (mset ?rest) = mset xs"
    using mset_remove_nth [OF i(1)] i(2) by simp
  with Cons.prems have "add_mset y (mset ys) = add_mset y (mset ?rest)" by simp
  then have "mset ys = mset ?rest" by (simp only: add_mset_add_mset_same_iff)
  define n where "n = length ?rest"
  from Cons.IH [OF \<open>mset ys = mset ?rest\<close>]
  obtain rnd where rnd: "sortRandomLoop rnd n ?rest = ys"
    unfolding n_def by blast
  have len: "length xs = Suc n" using i(1) by (simp add: n_def)
  let ?rnd = "rnd(n := i)"
  have same: "sortRandomLoop ?rnd n ?rest = sortRandomLoop rnd n ?rest"
    by (rule sortRandomLoop_cong) simp
  have ne: "xs \<noteq> []" using i(1) by auto
  have pick: "?rnd n mod length xs = i" using i(1) by simp
  have "sortRandomLoop ?rnd (Suc n) xs = xs ! i # sortRandomLoop ?rnd n ?rest"
    using ne pick by (simp only: sortRandomLoop.simps Let_def if_False)
  then have "sortRandomLoop ?rnd (length xs) xs = y # ys"
    using same rnd i(2) len by simp
  then show ?case by blast
qed

lemma mset_shuffleLoop: "k < length xs \<Longrightarrow> mset (shuffleLoop rnd k xs) = mset xs"
proof (induction k arbitrary: xs)
  case 0
  then show ?case by simp
next
  case (Suc k)
  define j where "j = rnd (Suc k) mod (Suc k + 1)"
  have j: "j < length xs" using Suc.prems
  proof -
    have "j < Suc k + 1" unfolding j_def by (rule mod_less_divisor) simp
    with Suc.prems show ?thesis by simp
  qed
  let ?xs' = "xs[Suc k := xs ! j, j := xs ! Suc k]"
  have "mset ?xs' = mset xs"
    using Suc.prems j by (simp add: mset_swap)
  moreover have "k < length ?xs'" using Suc.prems by simp
  ultimately show ?case using Suc.IH [of ?xs'] by (simp add: Let_def j_def)
qed

lemma mset_shuffleArray: "mset (shuffleArray rnd xs) = mset xs"
  by (cases "xs = []") (simp_all add: shuffleArray_def mset_shuffleLoop)

subsection \<open>Arithmetic of the rotation\<close>

lemma succ_mod_neq: "1 < n \<Longrightarrow> Suc i mod n \<noteq> i mod n" for n :: nat
proof
  assume n: "1 < n" and eq: "Suc i mod n = i mod n"
  show False
  proof (cases "Suc (i mod n) = n")
    case True
    then have "Suc i mod n = 0" by (metis mod_Suc)
    with eq True n show False by simp
  next
    case False
    then have "Suc i mod n = Suc (i mod n)" by (simp add: mod_Suc)
    with eq show False by simp
  qed
qed

subsection \<open>Lower case and the letters up to case\<close>

lemma of_char_toLowerCaseChar:
  "(of_char (toLowerCaseChar c) :: nat) = (if isUpperCase c then of_char c + 32 else of_char c)"
proof (cases "isUpperCase c")
  case True
  then have "(of_char c :: nat) + 32 < 256"
    by (auto simp: isUpperCase_def Let_def)
  then have "((of_char c :: nat) + 32) mod 256 = of_char c + 32"
    by simp
  with True show ?thesis by (simp add: toLowerCaseChar_def)
next
  case False
  then show ?thesis by (simp add: toLowerCaseChar_def)
qed

lemma lowerCode_eq_iff:
  fixes n m :: nat
  assumes "un \<longleftrightarrow> (65 \<le> n \<and> n \<le> 90) \<or> (192 \<le> n \<and> n \<le> 222 \<and> n \<noteq> 215)"
    and "um \<longleftrightarrow> (65 \<le> m \<and> m \<le> 90) \<or> (192 \<le> m \<and> m \<le> 222 \<and> m \<noteq> 215)"
  shows "(if un then n + 32 else n) = (if um then m + 32 else m)
         \<longleftrightarrow> n = m \<or> (un \<and> m = n + 32) \<or> (um \<and> n = m + 32)"
  using assms by (cases un; cases um) (simp; arith)+

lemma toLowerCaseChar_eq_iff:
  "toLowerCaseChar a = toLowerCaseChar b \<longleftrightarrow> spec_sameLetter a b"
proof -
  have "toLowerCaseChar a = toLowerCaseChar b
        \<longleftrightarrow> (of_char (toLowerCaseChar a) :: nat) = of_char (toLowerCaseChar b)"
    by simp
  also have "\<dots> \<longleftrightarrow> (of_char a :: nat) = of_char b
       \<or> (isUpperCase a \<and> (of_char b :: nat) = of_char a + 32)
       \<or> (isUpperCase b \<and> (of_char a :: nat) = of_char b + 32)"
    unfolding of_char_toLowerCaseChar
    by (rule lowerCode_eq_iff) (simp_all only: isUpperCase_def Let_def)
  also have "\<dots> \<longleftrightarrow> spec_sameLetter a b"
    by (simp add: spec_sameLetter_def)
  finally show ?thesis .
qed

lemma toLowerCase_eq_iff:
  "toLowerCase a = toLowerCase b \<longleftrightarrow> spec_caseInsensitiveEqual a b"
proof -
  have "map toLowerCaseChar a = map toLowerCaseChar b
        \<longleftrightarrow> list_all2 (\<lambda>x y. toLowerCaseChar x = toLowerCaseChar y) a b"
  proof (induction a arbitrary: b)
    case Nil
    then show ?case by auto
  next
    case (Cons x xs)
    then show ?case by (cases b) auto
  qed
  then show ?thesis
    by (simp add: toLowerCase_def spec_caseInsensitiveEqual_def toLowerCaseChar_eq_iff)
qed

subsection \<open>The trimmed form\<close>

lemma dropWhile_rev_empty:
  assumes "d \<noteq> [] \<Longrightarrow> \<not> P (hd d)"
  shows "dropWhile P (rev d) = [] \<longleftrightarrow> d = []"
proof (cases "d = []")
  case True
  then show ?thesis by simp
next
  case False
  then have "hd d \<in> set (rev d)" by simp
  moreover have "\<not> P (hd d)" using False by (rule assms)
  ultimately have "dropWhile P (rev d) \<noteq> []"
    by (metis dropWhile_eq_Nil_conv)
  with False show ?thesis by simp
qed

lemma trim_empty_iff: "trim s = [] \<longleftrightarrow> (\<forall>c \<in> set s. isWhiteSpace c)"
proof -
  have "dropWhile isWhiteSpace (rev (dropWhile isWhiteSpace s)) = []
        \<longleftrightarrow> dropWhile isWhiteSpace s = []"
    by (rule dropWhile_rev_empty) (rule hd_dropWhile)
  then have "trim s = [] \<longleftrightarrow> dropWhile isWhiteSpace s = []"
    by (simp add: trim_def)
  then show ?thesis
    by (simp only: dropWhile_eq_Nil_conv)
qed

lemma split_at_end:
  "xs = rev (dropWhile P (rev xs)) @ rev (takeWhile P (rev xs))"
proof -
  have "rev (takeWhile P (rev xs) @ dropWhile P (rev xs))
        = rev (dropWhile P (rev xs)) @ rev (takeWhile P (rev xs))"
    by (rule rev_append)
  then show ?thesis
    by (simp only: takeWhile_dropWhile_id rev_rev_ident)
qed

lemma dropWhile_keeps:
  assumes "xs \<noteq> []" and "\<not> P (hd xs)"
  shows "dropWhile P xs = xs"
  using assms by (cases xs) simp_all

lemma trim_split:
  "dropWhile isWhiteSpace s
     = trim s @ rev (takeWhile isWhiteSpace (rev (dropWhile isWhiteSpace s)))"
  unfolding trim_def by (rule split_at_end)

lemma trim_decompose:
  "\<exists>pre suf. s = pre @ trim s @ suf \<and> list_all isWhiteSpace pre \<and> list_all isWhiteSpace suf"
proof -
  let ?P = isWhiteSpace
  let ?d = "dropWhile ?P s"
  let ?suf = "rev (takeWhile ?P (rev ?d))"
  have "s = takeWhile ?P s @ ?d"
    by (simp only: takeWhile_dropWhile_id)
  also have "?d = trim s @ ?suf"
    by (rule trim_split)
  finally have 1: "s = takeWhile ?P s @ trim s @ ?suf" .
  have 2: "list_all ?P (takeWhile ?P s)"
    by (auto simp: list_all_iff dest: set_takeWhileD)
  have 3: "list_all ?P ?suf"
    by (auto simp: list_all_iff dest: set_takeWhileD)
  from 1 2 3 show ?thesis by blast
qed

lemma trim_ends:
  assumes "trim s \<noteq> []"
  shows "\<not> isWhiteSpace (hd (trim s))" and "\<not> isWhiteSpace (last (trim s))"
proof -
  let ?P = isWhiteSpace
  let ?d = "dropWhile ?P s"
  let ?e = "dropWhile ?P (rev ?d)"
  have t: "trim s = rev ?e" by (simp only: trim_def)
  have e: "?e \<noteq> []" using assms unfolding t by (simp only: rev_is_Nil_conv not_False_eq_True)
  then have "\<not> ?P (hd ?e)" by (rule hd_dropWhile)
  moreover have "last (trim s) = hd ?e" using e t by (metis last_rev)
  ultimately show "\<not> ?P (last (trim s))" by metis
  have d: "?d \<noteq> []"
  proof
    assume "?d = []"
    then have "?e = []" by (simp only: rev.simps dropWhile.simps)
    with e show False by (simp only:)
  qed
  then have nd: "\<not> ?P (hd ?d)" by (rule hd_dropWhile)
  have "hd ?d = hd (trim s @ rev (takeWhile ?P (rev ?d)))"
    by (rule arg_cong [OF trim_split])
  also have "\<dots> = hd (trim s)" using assms by (rule hd_append2)
  finally show "\<not> ?P (hd (trim s))" using nd by metis
qed

lemma trim_unique:
  assumes "s = pre @ core @ suf" "list_all isWhiteSpace pre" "list_all isWhiteSpace suf"
    and "core = [] \<or> (\<not> isWhiteSpace (hd core) \<and> \<not> isWhiteSpace (last core))"
  shows "trim s = core"
proof (cases "core = []")
  case True
  then have "\<forall>c \<in> set s. isWhiteSpace c"
    using assms(1-3) by (auto simp: list_all_iff)
  then have "trim s = []" by (simp only: trim_empty_iff)
  with True show ?thesis by (simp only:)
next
  case False
  let ?P = isWhiteSpace
  from False assms(4) have ends: "\<not> ?P (hd core)" "\<not> ?P (last core)" by blast+
  have pre: "\<And>x. x \<in> set pre \<Longrightarrow> ?P x" and suf: "\<And>x. x \<in> set (rev suf) \<Longrightarrow> ?P x"
    using assms(2,3) by (auto simp: list_all_iff)
  have "dropWhile ?P s = dropWhile ?P (core @ suf)"
    unfolding assms(1) using pre by (rule dropWhile_append2)
  also have "\<dots> = core @ suf"
  proof (rule dropWhile_keeps)
    show "core @ suf \<noteq> []" using False by simp
    show "\<not> ?P (hd (core @ suf))" using False ends(1) by (metis hd_append2)
  qed
  finally have d: "dropWhile ?P s = core @ suf" .
  have "dropWhile ?P (rev (core @ suf)) = dropWhile ?P (rev suf @ rev core)"
    by (simp only: rev_append)
  also have "\<dots> = dropWhile ?P (rev core)"
    using suf by (rule dropWhile_append2)
  also have "\<dots> = rev core"
  proof (rule dropWhile_keeps)
    show "rev core \<noteq> []" using False by simp
    show "\<not> ?P (hd (rev core))" using ends(2) by (metis hd_rev)
  qed
  finally have "dropWhile ?P (rev (dropWhile ?P s)) = rev core"
    unfolding d .
  then show ?thesis by (simp only: trim_def rev_rev_ident)
qed

lemma spec_trimmedForm_iff: "spec_trimmedForm core s \<longleftrightarrow> core = trim s"
proof
  assume "spec_trimmedForm core s"
  then obtain pre suf where a: "s = pre @ core @ suf"
    and b: "list_all isWhiteSpace pre" and c: "list_all isWhiteSpace suf"
    and d: "core = [] \<or> (\<not> isWhiteSpace (hd core) \<and> \<not> isWhiteSpace (last core))"
    unfolding spec_trimmedForm_def by (elim exE conjE)
  show "core = trim s"
    using trim_unique [OF a b c d] by (rule sym)
next
  assume core: "core = trim s"
  obtain pre suf where a: "s = pre @ trim s @ suf"
    and b: "list_all isWhiteSpace pre" and c: "list_all isWhiteSpace suf"
    using trim_decompose [of s] by (elim exE conjE)
  have d: "trim s = [] \<or> (\<not> isWhiteSpace (hd (trim s)) \<and> \<not> isWhiteSpace (last (trim s)))"
    using trim_ends [of s] by (cases "trim s = []") simp_all
  show "spec_trimmedForm core s"
    unfolding spec_trimmedForm_def core
    using a b c d by (intro exI conjI)
qed

lemma spec_textMatch_iff:
  "spec_textMatch input term \<longleftrightarrow> toLowerCase (trim input) = toLowerCase (trim term)"
  by (simp add: spec_textMatch_def spec_trimmedForm_iff toLowerCase_eq_iff)

lemma spec_trimmedInputMatch_iff:
  "spec_trimmedInputMatch input term \<longleftrightarrow> toLowerCase (trim input) = toLowerCase term"
  by (simp add: spec_trimmedInputMatch_def spec_trimmedForm_iff toLowerCase_eq_iff)

subsection \<open>Items with distinct ids\<close>

lemma filter_same_id:
  "distinct (map id_v vocab) \<Longrightarrow> current \<in> set vocab \<Longrightarrow>
   filter (\<lambda>v. id_v v = id_v current) vocab = [current]"
proof (induction vocab)
  case Nil
  then show ?case by simp
next
  case (Cons v vocab)
  show ?case
  proof (cases "v = current")
    case True
    then have "id_v current \<notin> id_v ` set vocab" using Cons.prems(1) by simp
    then have "\<And>x. x \<in> set vocab \<Longrightarrow> id_v x \<noteq> id_v current"
      by (metis imageI)
    then have "filter (\<lambda>v. id_v v = id_v current) vocab = []"
      by (simp add: filter_empty_conv)
    with True show ?thesis by simp
  next
    case False
    then have in_rest: "current \<in> set vocab" using Cons.prems(2) by simp
    then have "id_v v \<noteq> id_v current" using Cons.prems(1) by auto
    moreover have "filter (\<lambda>v. id_v v = id_v current) vocab = [current]"
      using Cons.IH Cons.prems(1) in_rest by simp
    ultimately show ?thesis by simp
  qed
qed

lemma length_others:
  assumes "distinct (map id_v vocab)" and "current \<in> set vocab"
  shows "length (filter (\<lambda>v. id_v v \<noteq> id_v current) vocab) = length vocab - 1"
proof -
  have "length (filter (\<lambda>v. id_v v = id_v current) vocab)
        + length (filter (\<lambda>v. \<not> id_v v = id_v current) vocab) = length vocab"
    by (rule sum_length_filter_compl)
  then show ?thesis
    using filter_same_id [OF assms] by simp
qed

lemma filter_sortRandom_single:
  assumes "filter P xs = [x]"
  shows "filter P (sortRandom rnd xs) = [x]"
proof -
  have "mset (filter P (sortRandom rnd xs)) = mset (filter P xs)"
    by (simp add: mset_sortRandom)
  then have "mset (filter P (sortRandom rnd xs)) = {#x#}"
    using assms by simp
  then show ?thesis by (simp only: mset_single_iff)
qed

subsection \<open>The heap version refines the function on values\<close>

lemma heapGet_append: "heapGet h a = Some obj \<Longrightarrow> heapGet (h @ xs) a = Some obj"
  by (auto simp: heapGet_def nth_append split: if_splits)

lemma heapGet_fresh: "heapGet (h @ [obj]) (length h) = Some obj"
  by (simp add: heapGet_def)

lemma reprWordStats_append: "reprWordStats h a ws \<Longrightarrow> reprWordStats (h @ xs) a ws"
  by (simp add: reprWordStats_def heapGet_append)

lemma reprEntries_append:
  "list_all2 (reprEntry h) entries m \<Longrightarrow> list_all2 (reprEntry (h @ xs)) entries m"
  by (erule list_all2_mono) (simp add: reprEntry_def reprWordStats_append)

lemma reprDict_append: "reprDict h a m \<Longrightarrow> reprDict (h @ xs) a m"
  unfolding reprDict_def by (blast intro: heapGet_append reprEntries_append)

lemma reprStats_append: "reprStats h a st \<Longrightarrow> reprStats (h @ xs) a st"
  unfolding reprStats_def
  by (auto split: option.splits intro: heapGet_append reprDict_append)

lemma reprEntries_lookup_None:
  "list_all2 (reprEntry h) entries m \<Longrightarrow> map_of entries k = None \<longleftrightarrow> map_of m k = None"
  by (induction rule: list_all2_induct) (auto simp: reprEntry_def)

lemma reprEntries_lookup_Some:
  "list_all2 (reprEntry h) entries m \<Longrightarrow> map_of entries k = Some a \<Longrightarrow>
   \<exists>ws. map_of m k = Some ws \<and> reprWordStats h a ws"
  by (induction rule: list_all2_induct) (auto simp: reprEntry_def split: if_splits)

lemma reprEntries_keys:
  "list_all2 (reprEntry h) entries m \<Longrightarrow> map fst entries = map fst m"
  by (induction rule: list_all2_induct) (simp_all add: reprEntry_def)

lemma reprEntries_setProp:
  "list_all2 (reprEntry h) entries m \<Longrightarrow> reprWordStats h a ws \<Longrightarrow>
   list_all2 (reprEntry h) (setProp k a entries) (setProp k ws m)"
proof (induction rule: list_all2_induct)
  case Nil
  then show ?case by (simp add: reprEntry_def)
next
  case (Cons e entries p m)
  have keys: "fst e = fst p" using Cons.hyps(1) by (simp add: reprEntry_def)
  have rest: "map fst entries = map fst m" using Cons.hyps(2) by (rule reprEntries_keys)
  have new: "reprEntry h (k, a) (k, ws)" using Cons.prems by (simp add: reprEntry_def)
  consider (same) "fst e = k"
    | (before) "fst e \<noteq> k" "keyBefore k (fst e) \<and> k \<notin> set (map fst entries)"
    | (later) "fst e \<noteq> k" "\<not> (keyBefore k (fst e) \<and> k \<notin> set (map fst entries))"
    by blast
  then show ?case
  proof cases
    case same
    then show ?thesis using new keys Cons.hyps(2) by simp
  next
    case before
    have "setProp k a (e # entries) = (k, a) # e # entries"
      using before by simp
    moreover have "setProp k ws (p # m) = (k, ws) # p # m"
      using before keys rest by simp
    ultimately show ?thesis using new Cons.hyps by simp
  next
    case later
    have "setProp k a (e # entries) = e # setProp k a entries"
      using later by auto
    moreover have "setProp k ws (p # m) = p # setProp k ws m"
      using later keys rest by auto
    ultimately show ?thesis using Cons.hyps(1) Cons.IH [OF Cons.prems] by simp
  qed
qed

lemma updateWordStatsHeap_refines:
  assumes "reprStats h a st"
  shows "\<exists>h' r. updateWordStatsHeap a w ok now h = Some (h', r)
           \<and> take (length h) h' = h \<and> length h \<le> r
           \<and> reprStats h' r (updateWordStats st w ok now)
           \<and> reprStats h' a st"
proof -
  from assms obtain ws where
    obj: "heapGet h a = Some (StatsObj (correct_s st) (attempts_s st) (lastSessionDate st) ws)"
    and dict: "case ws of None \<Rightarrow> wordStats st = None
                | Some d \<Rightarrow> (\<exists>m. wordStats st = Some m \<and> reprDict h d m)"
    unfolding reprStats_def by blast
  define h1 where "h1 = (case ws of None \<Rightarrow> h @ [DictObj []] | Some r \<Rightarrow> h)"
  define d where "d = (case ws of None \<Rightarrow> length h | Some r \<Rightarrow> r)"
  obtain x1 where h1: "h1 = h @ x1" by (cases ws) (simp_all add: h1_def)
  have "reprDict h1 d (wordStatsOrEmpty st)"
  proof (cases ws)
    case None
    then show ?thesis using dict
      by (simp add: h1_def d_def reprDict_def heapGet_fresh wordStatsOrEmpty_def)
  next
    case (Some r)
    then show ?thesis using dict
      by (auto simp add: h1_def d_def wordStatsOrEmpty_def)
  qed
  then obtain entries where
    ents: "heapGet h1 d = Some (DictObj entries)"
    and rel: "list_all2 (reprEntry h1) entries (wordStatsOrEmpty st)"
    unfolding reprDict_def by blast
  define cur where "cur = (case map_of (wordStatsOrEmpty st) w of
      Some c \<Rightarrow> c
    | None \<Rightarrow> if w \<in> set objectPrototypeNames
               then \<lparr>attempts_w = NaN, correct_w = NaN, lastAttempted = []\<rparr>
               else \<lparr>attempts_w = 0, correct_w = 0, lastAttempted = now\<rparr>)"
  define h2 where "h2 = (case map_of entries w of
      Some r \<Rightarrow> h1
    | None \<Rightarrow> if w \<in> set objectPrototypeNames then h1 else h1 @ [WordStatsObj 0 0 now])"
  obtain x2 where h2: "h2 = h1 @ x2"
    by (cases "map_of entries w"; cases "w \<in> set objectPrototypeNames") (simp_all add: h2_def)
  have s2: "(case map_of entries w of
               Some r \<Rightarrow> (h1, heapGet h1 r)
             | None \<Rightarrow>
                 if w \<in> set objectPrototypeNames
                 then (h1, Some (WordStatsObj NaN NaN []))
                 else (h1 @ [WordStatsObj 0 0 now], Some (WordStatsObj 0 0 now)))
            = (h2, Some (WordStatsObj (attempts_w cur) (correct_w cur) (lastAttempted cur)))"
  proof (cases "map_of entries w")
    case None
    then have "map_of (wordStatsOrEmpty st) w = None"
      using reprEntries_lookup_None [OF rel] by simp
    with None show ?thesis
      by (simp add: h2_def cur_def)
  next
    case (Some r)
    then obtain v where "map_of (wordStatsOrEmpty st) w = Some v" "reprWordStats h1 r v"
      using reprEntries_lookup_Some [OF rel] by blast
    with Some show ?thesis by (simp add: h2_def cur_def reprWordStats_def)
  qed
  define new where "new = \<lparr>attempts_w = attempts_w cur + 1,
      correct_w = correct_w cur + (if ok then 1 else 0), lastAttempted = now\<rparr>"
  define h3 where "h3 = h2 @ [WordStatsObj (attempts_w cur + 1)
      (correct_w cur + (if ok then 1 else 0)) now]"
  define h4 where "h4 = h3 @ [DictObj (setProp w (length h2) entries)]"
  define h5 where "h5 = h4 @ [StatsObj (correct_s st) (attempts_s st) (lastSessionDate st)
      (Some (length h3))]"
  have run: "updateWordStatsHeap a w ok now h = Some (h5, length h4)"
  proof -
    have g1: "heapGet h1 d = Some (DictObj entries)" by (rule ents)
    have s1: "(case ws of None \<Rightarrow> alloc (DictObj []) h | Some r \<Rightarrow> (h, r)) = (h1, d)"
      by (cases ws) (simp_all add: alloc_def h1_def d_def)
    show ?thesis
      unfolding updateWordStatsHeap_def
      by (simp add: obj s1 g1 s2 alloc_def h3_def h4_def h5_def Let_def)
  qed
  obtain x where ext: "h5 = h @ x"
    by (simp add: h5_def h4_def h3_def h2 h1)
  have old: "take (length h) h5 = h" unfolding ext by simp
  have fresh: "length h \<le> length h4" by (simp add: h4_def h3_def h2 h1)
  have inp: "reprStats h5 a st"
    unfolding ext using assms by (rule reprStats_append)
  have rel3: "list_all2 (reprEntry h3) entries (wordStatsOrEmpty st)"
    unfolding h3_def h2 using rel by (simp add: reprEntries_append)
  have new3: "reprWordStats h3 (length h2) new"
    by (simp add: reprWordStats_def h3_def new_def heapGet_fresh)
  have "list_all2 (reprEntry h3) (setProp w (length h2) entries) (setProp w new (wordStatsOrEmpty st))"
    using rel3 new3 by (rule reprEntries_setProp)
  then have "list_all2 (reprEntry h5) (setProp w (length h2) entries) (setProp w new (wordStatsOrEmpty st))"
    unfolding h5_def h4_def by (simp add: reprEntries_append)
  moreover have "heapGet h5 (length h3) = Some (DictObj (setProp w (length h2) entries))"
  proof -
    have "heapGet h4 (length h3) = Some (DictObj (setProp w (length h2) entries))"
      unfolding h4_def by (rule heapGet_fresh)
    then show ?thesis unfolding h5_def by (rule heapGet_append)
  qed
  ultimately have dict5: "reprDict h5 (length h3) (setProp w new (wordStatsOrEmpty st))"
    unfolding reprDict_def by blast
  have "heapGet h5 (length h4) = Some (StatsObj (correct_s st) (attempts_s st) (lastSessionDate st)
      (Some (length h3)))"
    unfolding h5_def by (rule heapGet_fresh)
  with dict5 have res: "reprStats h5 (length h4) (updateWordStats st w ok now)"
    by (simp add: reprStats_def updateWordStats_def Let_def new_def cur_def)
  from run old fresh res inp show ?thesis by blast
qed

lemma updateWordStatsHeap_extends:
  "updateWordStatsHeap a w ok now h = Some (h', r) \<Longrightarrow> take (length h) h' = h \<and> length h \<le> r"
  by (auto simp: updateWordStatsHeap_def alloc_def Let_def
        split: option.splits JsObject.splits prod.splits if_splits)

subsection \<open>Failed words\<close>

lemma set_getFailedWordIds:
  "set (getFailedWordIds st) =
     {w. \<exists>ws. map_of (wordStatsOrEmpty st) w = Some ws \<and> attempts_w ws > correct_w ws}"
proof -
  have "\<And>w ws. map_of (wordStatsOrEmpty st) w = Some ws \<Longrightarrow> w \<in> fst ` set (wordStatsOrEmpty st)"
    by (metis fst_conv image_eqI map_of_SomeD)
  then show ?thesis
    by (auto simp add: getFailedWordIds_def Let_def split: option.splits)
qed

subsection \<open>The sample session, evaluated\<close>

lemmas action_defs =
  initializeQuiz_def setMode_def setDifficulty_def handleAnswerSet_def advanceToNextQuestion_def
  setUserInput_def toggleShowHelp_def setShowHelp_def setMenuOpen_def setStatsExpanded_def
  restartQuiz_def resetStats_def handleAnswer_def submitTextAnswer_def timerFires_def

lemma quiz_createdStore:
  "quiz createdStore =
     \<lparr>index = 0, mode = DeToEn, difficulty = ''all'', shuffled = [], displayWord = None,
      displayChoices = [], hasAnswered = False, userInput = [], lastResult = None,
      showHelp = False, menuOpen = False, statsExpanded = False, isTransitioning = False,
      stats = defaultStats ''t0'', correct = 0, attempts = 0\<rparr>"
  by (simp add: createdStore_def initialState_def migrateOldStats_def loadStats_def
        emptyStorage_def defaultStats_def)

lemma shuffle_two: "shuffleArray noDraws [a, b] = [b, a]"
  by (simp add: shuffleArray_def noDraws_def Let_def)

lemma sortRandom_noDraws: "sortRandom noDraws xs = xs"
proof -
  have "sortRandomLoop noDraws n ys = take n ys" for n and ys :: "'a list"
  proof (induction n arbitrary: ys)
    case 0
    then show ?case by simp
  next
    case (Suc n)
    then show ?case by (cases ys) (simp_all add: noDraws_def)
  qed
  then show ?thesis by (simp add: sortRandom_def)
qed

lemma quiz_startedStore:
  "quiz startedStore =
     (quiz createdStore)\<lparr>shuffled := [danke, hallo], displayWord := Some danke,
        displayChoices := [\<lparr>text_c = ''Thank you'', isCorrect_c = True\<rparr>,
                           \<lparr>text_c = ''Hello'', isCorrect_c = False\<rparr>]\<rparr>"
  by (simp add: startedStore_def initializeQuiz_def quiz_createdStore filterVocab_def
        shuffle_two arrayGet_def getChoices_def sortRandom_noDraws Let_def)
     (simp add: hallo_def danke_def)

lemma pending_startedStore: "pendingAdvances startedStore = 0"
  by (simp add: startedStore_def createdStore_def)

lemma reachable_createdStore: "reachable createdStore"
  unfolding createdStore_def by (rule reachable.created)

lemma reachable_startedStore: "reachable startedStore"
  unfolding startedStore_def by (rule reachable.after_action) (rule reachable_createdStore)

lemma reachable_answeredStore: "reachable answeredStore"
  unfolding answeredStore_def by (rule reachable.after_action) (rule reachable_startedStore)

lemma quiz_answeredStore:
  "quiz answeredStore =
     (quiz startedStore)\<lparr>hasAnswered := True, lastResult := Some True, isTransitioning := True,
        stats := \<lparr>correct_s = 1, attempts_s = 1, lastSessionDate = ''t2'',
                  wordStats = Some [(''3'', \<lparr>attempts_w = 1, correct_w = 1, lastAttempted = ''t1''\<rparr>)]\<rparr>,
        correct := 1, attempts := 1\<rparr>"
  by (simp add: answeredStore_def handleAnswer_def handleAnswerSet_def Let_def quiz_startedStore
        quiz_createdStore updateWordStats_def wordStatsOrEmpty_def defaultStats_def danke_def
        objectPrototypeNames_def JsNumber_simps)

lemma pending_answeredStore: "pendingAdvances answeredStore = 1"
  by (simp add: answeredStore_def handleAnswer_def pending_startedStore)

lemma quiz_restartedStore:
  "quiz restartedStore =
     (quiz startedStore)\<lparr>displayWord := Some hallo,
        displayChoices := [\<lparr>text_c = ''Hello'', isCorrect_c = True\<rparr>,
                           \<lparr>text_c = ''Thank you'', isCorrect_c = False\<rparr>]\<rparr>"
  by (simp add: restartedStore_def restartQuiz_def advanceToNextQuestion_def Let_def
        quiz_startedStore quiz_createdStore arrayGet_def getChoices_def sortRandom_noDraws)
     (simp add: hallo_def danke_def)

lemma typedStore_facts:
  "\<not> hasAnswered (quiz typedStore)" "userInput (quiz typedStore) = '' hello ''"
  by (simp_all add: typedStore_def setUserInput_def advanceToNextQuestion_def Let_def)

lemma helloStore_facts:
  "\<not> hasAnswered (quiz helloStore)" "userInput (quiz helloStore) = ''hello''"
  by (simp_all add: helloStore_def setUserInput_def advanceToNextQuestion_def Let_def)

lemma paddedStore_facts:
  "\<not> hasAnswered (quiz paddedStore)" "userInput (quiz paddedStore) = ''Hello ''"
  by (simp_all add: paddedStore_def setUserInput_def advanceToNextQuestion_def Let_def)

lemma quiz_answeredHelpStore:
  "quiz answeredHelpStore = (quiz answeredStore)\<lparr>userInput := ''Thank you'', showHelp := True\<rparr>"
  by (simp add: answeredHelpStore_def setUserInput_def setShowHelp_def)

lemma reprStats_sampleHeap: "reprStats sampleHeap 3 sampleStats"
proof -
  have "list_all2 (reprEntry sampleHeap) [(''1'', 0), (''3'', 1)] (wordStatsOrEmpty sampleStats)"
    by (simp add: reprEntry_def reprWordStats_def heapGet_def sampleHeap_def sampleStats_def
          wordStatsOrEmpty_def)
  moreover have "heapGet sampleHeap 2 = Some (DictObj [(''1'', 0), (''3'', 1)])"
    by (simp add: heapGet_def sampleHeap_def)
  ultimately have "reprDict sampleHeap 2 (wordStatsOrEmpty sampleStats)"
    unfolding reprDict_def by blast
  moreover have "wordStats sampleStats = Some (wordStatsOrEmpty sampleStats)"
    by (simp add: sampleStats_def wordStatsOrEmpty_def)
  moreover have "heapGet sampleHeap 3 = Some (StatsObj (correct_s sampleStats)
      (attempts_s sampleStats) (lastSessionDate sampleStats) (Some 2))"
    by (simp add: heapGet_def sampleHeap_def sampleStats_def)
  ultimately show ?thesis
    unfolding reprStats_def by auto
qed

subsection \<open>The word on display and the position\<close>

text \<open>
  The created store displays the deck's item at its position, and every action but
  \<open>restartQuiz\<close> keeps it so: \<open>initializeQuiz\<close> and \<open>setDifficulty\<close> set the position to 0
  and load the first word, \<open>advanceToNextQuestion\<close> loads the word of the position it sets,
  and the other actions touch neither the position, nor the deck, nor the word.
\<close>

lemma inSync_created: "inSync (initialState ls now1 now2)"
  by (simp add: inSync_def initialState_def arrayGet_def Let_def)

lemma inSync_preserved:
  assumes "inSync (quiz store)" and "a \<noteq> RestartQuiz"
  shows "inSync (quiz (apply_action a store))"
  using assms
  by (cases a)
     (simp_all add: inSync_def initializeQuiz_def setMode_def setDifficulty_def handleAnswer_def
        handleAnswerSet_def advanceToNextQuestion_def timerFires_def setUserInput_def
        submitTextAnswer_def toggleShowHelp_def setShowHelp_def setMenuOpen_def
        setStatsExpanded_def resetStats_def Let_def split: option.splits)

text \<open>
  What \<open>advanceToNextQuestion\<close> sets on a non-empty deck, and that the word changes when
  the deck has more than one item, no item twice, and the word on display is the one at the
  position.
\<close>

lemma advanceToNextQuestion_fields:
  assumes "shuffled s \<noteq> []" and "s' = advanceToNextQuestion rnd1 rnd2 s"
    and "next = shuffled s ! ((index s + 1) mod length (shuffled s))"
  shows "index s' = index s + 1
    \<and> displayWord s' = Some next
    \<and> displayChoices s' = getChoices (shuffled s) next (mode s) rnd1 rnd2
    \<and> hasAnswered s' = False \<and> lastResult s' = None \<and> userInput s' = []
    \<and> isTransitioning s' = False"
proof -
  let ?n = "length (shuffled s)"
  have n: "0 < ?n" using assms(1) by simp
  have m: "max 1 ?n = ?n" using assms(1) by (cases "shuffled s") (simp_all add: max_def)
  have lt: "(index s + 1) mod ?n < ?n" using n by simp
  have word: "displayWord s' = Some next"
    using assms(2,3) lt by (simp add: advanceToNextQuestion_def Let_def arrayGet_def m)
  have rest: "index s' = index s + 1" "hasAnswered s' = False" "lastResult s' = None"
    "userInput s' = []" "isTransitioning s' = False"
    using assms(2) by (simp_all add: advanceToNextQuestion_def Let_def)
  have choices: "displayChoices s' = getChoices (shuffled s) next (mode s) rnd1 rnd2"
    using assms(2,3) lt by (simp add: advanceToNextQuestion_def Let_def arrayGet_def m)
  show ?thesis using word rest choices by simp
qed

lemma advanceToNextQuestion_changes_word:
  assumes "inSync s" and "1 < length (shuffled s)" and "distinct (shuffled s)"
  shows "displayWord (advanceToNextQuestion rnd1 rnd2 s) \<noteq> displayWord s"
proof -
  let ?n = "length (shuffled s)"
  have n: "0 < ?n" using assms(2) by arith
  have m: "max 1 ?n = ?n" using assms(2) by (cases "shuffled s") (simp_all add: max_def)
  have "Suc (index s) mod ?n \<noteq> index s mod ?n"
    using assms(2) by (rule succ_mod_neq)
  moreover have "index s mod ?n < ?n" "Suc (index s) mod ?n < ?n" using n by simp_all
  ultimately have "shuffled s ! (Suc (index s) mod ?n) \<noteq> shuffled s ! (index s mod ?n)"
    using assms(3) by (simp add: nth_eq_iff_index_eq)
  then show ?thesis
    using assms(1) n by (simp add: inSync_def advanceToNextQuestion_def Let_def arrayGet_def m)
qed

section \<open>The frozen display\<close>

text \<open>
  Claim C1, as the code has it. In every state, so in particular in every reachable state
  with \<open>hasAnswered\<close>, an action that does not load a question leaves \<open>displayWord\<close> as
  it is, and leaves \<open>displayChoices\<close> as they are unless it is \<open>setMode\<close>, which regenerates
  the choices of the displayed word. In particular \<open>handleAnswer\<close> leaves both exactly as
  they were before the submission.
\<close>

theorem display_frozen:
  "(\<not> loadsQuestion a \<longrightarrow>
      displayWord (quiz (apply_action a store)) = displayWord (quiz store)
      \<and> (\<not> regeneratesChoices a \<longrightarrow>
           displayChoices (quiz (apply_action a store)) = displayChoices (quiz store)))
   \<and> displayWord (quiz (handleAnswer ok w now1 now2 store)) = displayWord (quiz store)
   \<and> displayChoices (quiz (handleAnswer ok w now1 now2 store)) = displayChoices (quiz store)"
  by (cases a) (simp_all add: action_defs Let_def split: option.splits)

theorem display_frozen_witness:
  "hasAnswered (quiz answeredStore) \<and> \<not> loadsQuestion (SubmitTextAnswer ''Thank you'' danke ''t3'' ''t4'')
   \<and> displayWord (quiz (apply_action (SubmitTextAnswer ''Thank you'' danke ''t3'' ''t4'') answeredStore))
       = Some danke
   \<and> displayWord (quiz (apply_action (SetMode EnToDe noDraws noDraws) answeredStore)) = Some danke
   \<and> displayWord (quiz answeredStore) = displayWord (quiz startedStore)
   \<and> displayChoices (quiz answeredStore) = displayChoices (quiz startedStore)"
  using display_frozen [of "SubmitTextAnswer ''Thank you'' danke ''t3'' ''t4''" answeredStore
      True danke "''t1''" "''t2''"]
    display_frozen [of "SetMode EnToDe noDraws noDraws" answeredStore True danke "''t1''" "''t2''"]
  by (simp add: quiz_answeredStore quiz_startedStore quiz_createdStore)

text \<open>
  \<open>setMode\<close> does not look at \<open>hasAnswered\<close>: in the answered sample session it replaces
  the English choices by the German ones. Nor does \<open>setDifficulty\<close>: there it loads the
  first word of the new deck in place of the displayed one.
\<close>

theorem setMode_while_answered_counterexample:
  "reachable answeredStore \<and> hasAnswered (quiz answeredStore)
   \<and> displayChoices (quiz answeredStore) =
        [\<lparr>text_c = ''Thank you'', isCorrect_c = True\<rparr>, \<lparr>text_c = ''Hello'', isCorrect_c = False\<rparr>]
   \<and> displayChoices (quiz (apply_action (SetMode EnToDe noDraws noDraws) answeredStore)) =
        [\<lparr>text_c = ''Danke'', isCorrect_c = True\<rparr>, \<lparr>text_c = ''Hallo'', isCorrect_c = False\<rparr>]
   \<and> displayWord (quiz answeredStore) = Some danke
   \<and> displayWord (quiz (apply_action
         (SetDifficulty ''easy'' [hallo, danke] noDraws noDraws noDraws) answeredStore)) = Some hallo
   \<and> danke \<noteq> hallo"
proof -
  have m: "displayChoices (quiz answeredStore) =
        [\<lparr>text_c = ''Thank you'', isCorrect_c = True\<rparr>, \<lparr>text_c = ''Hello'', isCorrect_c = False\<rparr>]"
    "displayChoices (quiz (apply_action (SetMode EnToDe noDraws noDraws) answeredStore)) =
        [\<lparr>text_c = ''Danke'', isCorrect_c = True\<rparr>, \<lparr>text_c = ''Hallo'', isCorrect_c = False\<rparr>]"
    by (simp_all add: quiz_answeredStore quiz_startedStore quiz_createdStore setMode_def
          getChoices_def sortRandom_noDraws Let_def)
       (simp_all add: hallo_def danke_def)
  have f: "filterVocab [hallo, danke] (Some ''easy'') fs = [hallo]" for fs
    by (simp add: filterVocab_def hallo_def danke_def)
  have s1: "shuffleArray noDraws [hallo] = [hallo]"
    by (simp add: shuffleArray_def noDraws_def Let_def)
  have d: "displayWord (quiz answeredStore) = Some danke"
    "displayWord (quiz (apply_action
         (SetDifficulty ''easy'' [hallo, danke] noDraws noDraws noDraws) answeredStore)) = Some hallo"
    by (simp_all add: quiz_answeredStore quiz_startedStore quiz_createdStore setDifficulty_def
          f s1 arrayGet_def Let_def)
  have n: "danke \<noteq> hallo" by (simp add: danke_def hallo_def)
  have h: "hasAnswered (quiz answeredStore)" by (simp add: quiz_answeredStore)
  show ?thesis
    using reachable_answeredStore h m d n by simp
qed

section \<open>A timer that outlives a restart\<close>

text \<open>
  Claim C2, as the code has it. \<open>restartQuiz\<close> resets the position and leaves the timer of
  the answer pending: nothing cancels it and \<open>advanceToNextQuestion\<close> checks nothing before
  it applies. When the timer fires after the restart it advances the reset session by one:
  the position becomes 1 and the displayed word the deck's item at position 1 (modulo the
  length). The deck, the mode, the difficulty and the statistics stay as they are.
\<close>

theorem stale_timer_after_restart:
  assumes "s1 = apply_action RestartQuiz (handleAnswer ok w now1 now2 store)"
    and "s2 = timerFires rnd1 rnd2 s1"
  shows "index (quiz s1) = 0 \<and> pendingAdvances s1 = Suc (pendingAdvances store)
    \<and> index (quiz s2) = 1
    \<and> displayWord (quiz s2) =
        arrayGet (shuffled (quiz store)) (1 mod max 1 (length (shuffled (quiz store))))
    \<and> shuffled (quiz s2) = shuffled (quiz store)
    \<and> mode (quiz s2) = mode (quiz store)
    \<and> difficulty (quiz s2) = difficulty (quiz store)
    \<and> stats (quiz s2) = stats (quiz s1)
    \<and> pendingAdvances s2 = pendingAdvances store"
  using assms
  by (simp add: timerFires_def restartQuiz_def handleAnswer_def handleAnswerSet_def
        advanceToNextQuestion_def Let_def)

theorem stale_timer_after_restart_witness:
  "index (quiz restartedWhilePending) = 0 \<and> pendingAdvances restartedWhilePending = 1
   \<and> index (quiz (timerFires noDraws noDraws restartedWhilePending)) = 1
   \<and> displayWord (quiz (timerFires noDraws noDraws restartedWhilePending)) = Some hallo
   \<and> shuffled (quiz (timerFires noDraws noDraws restartedWhilePending)) = [danke, hallo]"
  using stale_timer_after_restart [of restartedWhilePending True danke "''t1''" "''t2''" startedStore
      "timerFires noDraws noDraws restartedWhilePending" noDraws noDraws]
  by (simp add: restartedWhilePending_def answeredStore_def pending_startedStore quiz_startedStore
        arrayGet_def)

text \<open>
  In the sample session the restart puts the position back to 0; the timer of the answer
  given before the restart then moves it to 1 and replaces the displayed word.
\<close>

theorem stale_timer_counterexample:
  "reachable restartedWhilePending
   \<and> index (quiz restartedWhilePending) = 0
   \<and> displayWord (quiz restartedWhilePending) = Some danke
   \<and> shuffled (quiz restartedWhilePending) = [danke, hallo]
   \<and> index (quiz (apply_action (TimerFires noDraws noDraws) restartedWhilePending)) = 1
   \<and> displayWord (quiz (apply_action (TimerFires noDraws noDraws) restartedWhilePending)) = Some hallo"
proof -
  have "reachable restartedWhilePending"
    unfolding restartedWhilePending_def
    by (rule reachable.after_action) (rule reachable_answeredStore)
  then show ?thesis
    by (simp add: restartedWhilePending_def restartQuiz_def quiz_answeredStore quiz_startedStore
        quiz_createdStore pending_answeredStore timerFires_def advanceToNextQuestion_def
        arrayGet_def Let_def)
qed

section \<open>Rejected submissions\<close>

text \<open>
  Claim C3, as the code has it. \<open>submitTextAnswer\<close> returns without any effect when the
  question has been answered already, and when the text typed in is empty or consists of
  white space only: the whole store, and with it the aggregate attempts and correct answers,
  stays as it is. On the choice-click path it is the button that rejects: a click on a
  choice while \<open>hasAnswered\<close> holds has no effect either, because the button is disabled.
  \<open>handleAnswer\<close> itself makes no such check: whenever it is called it counts one more
  attempt.
\<close>

theorem submitTextAnswer_rejects:
  "(hasAnswered (quiz store) \<or> (\<forall>c \<in> set (userInput (quiz store)). isWhiteSpace c)
      \<longrightarrow> submitTextAnswer correctAnswer w now1 now2 store = store)
   \<and> (hasAnswered (quiz store) \<longrightarrow> choiceButtonClick i now1 now2 store = store)
   \<and> attempts (quiz (handleAnswer ok w now1 now2 store)) = attempts (quiz store) + 1"
  by (simp add: submitTextAnswer_def trim_empty_iff Let_def handleAnswer_def handleAnswerSet_def
        choiceButtonClick_def split: option.splits)

theorem submitTextAnswer_rejects_witness:
  "hasAnswered (quiz answeredStore)
   \<and> submitTextAnswer ''Thank you'' danke ''t3'' ''t4'' answeredStore = answeredStore
   \<and> attempts (quiz (submitTextAnswer ''Thank you'' danke ''t3'' ''t4'' answeredStore)) = 1
   \<and> choiceButtonClick 0 ''t3'' ''t4'' answeredStore = answeredStore
   \<and> userInput (quiz blankInputStore) = ''  '' \<and> \<not> hasAnswered (quiz blankInputStore)
   \<and> submitTextAnswer ''Thank you'' danke ''t3'' ''t4'' blankInputStore = blankInputStore
   \<and> hasAnswered (quiz answeredHelpStore) \<and> showHelp (quiz answeredHelpStore)
   \<and> userInput (quiz answeredHelpStore) = ''Thank you''
   \<and> displayWord (quiz answeredHelpStore) = Some danke
   \<and> arrayGet (displayChoices (quiz answeredHelpStore)) 0
        = Some \<lparr>text_c = ''Thank you'', isCorrect_c = True\<rparr>
   \<and> submitTextAnswer ''Thank you'' danke ''t3'' ''t4'' answeredHelpStore = answeredHelpStore
   \<and> choiceButtonClick 0 ''t3'' ''t4'' answeredHelpStore = answeredHelpStore"
proof -
  have e: "hasAnswered (quiz answeredHelpStore)" "showHelp (quiz answeredHelpStore)"
    "userInput (quiz answeredHelpStore) = ''Thank you''"
    "displayWord (quiz answeredHelpStore) = Some danke"
    "arrayGet (displayChoices (quiz answeredHelpStore)) 0
        = Some \<lparr>text_c = ''Thank you'', isCorrect_c = True\<rparr>"
    by (simp_all add: quiz_answeredHelpStore quiz_answeredStore quiz_startedStore
          quiz_createdStore arrayGet_def)
  have a: "hasAnswered (quiz answeredStore)" "attempts (quiz answeredStore) = 1"
    by (simp_all add: answeredStore_def handleAnswer_def handleAnswerSet_def Let_def
          quiz_startedStore quiz_createdStore)
  have b: "userInput (quiz blankInputStore) = ''  ''" "\<not> hasAnswered (quiz blankInputStore)"
    by (simp_all add: blankInputStore_def setUserInput_def quiz_startedStore quiz_createdStore)
  have c: "\<forall>c \<in> set (userInput (quiz blankInputStore)). isWhiteSpace c"
    by (simp add: b isWhiteSpace_def)
  show ?thesis
    using a b c e
      submitTextAnswer_rejects [of answeredStore "''Thank you''" danke "''t3''" "''t4''" 0 True]
      submitTextAnswer_rejects [of blankInputStore "''Thank you''" danke "''t3''" "''t4''" 0 True]
      submitTextAnswer_rejects [of answeredHelpStore "''Thank you''" danke "''t3''" "''t4''" 0 True]
    by simp
qed

text \<open>
  Called in a state with \<open>hasAnswered\<close>, \<open>handleAnswer\<close> is not a no-op: in the sample
  session the attempts go from 1 to 2.
\<close>

theorem handleAnswer_unguarded_counterexample:
  "hasAnswered (quiz answeredStore)
   \<and> attempts (quiz answeredStore) = 1
   \<and> attempts (quiz (handleAnswer True danke ''t3'' ''t4'' answeredStore)) = 2
   \<and> handleAnswer True danke ''t3'' ''t4'' answeredStore \<noteq> answeredStore"
proof -
  have a: "hasAnswered (quiz answeredStore)" "attempts (quiz answeredStore) = 1"
    by (simp_all add: answeredStore_def handleAnswer_def handleAnswerSet_def Let_def
          quiz_startedStore quiz_createdStore)
  have b: "attempts (quiz (handleAnswer True danke ''t3'' ''t4'' answeredStore)) = 2"
    using a by (simp add: handleAnswer_def handleAnswerSet_def Let_def)
  from a b have "handleAnswer True danke ''t3'' ''t4'' answeredStore \<noteq> answeredStore"
    by (metis numeral_eq_one_iff semiring_norm(85))
  with a b show ?thesis by simp
qed

section \<open>The choices\<close>

text \<open>
  Claim C4. For a working set whose items have distinct ids and a current word from it,
  \<open>getChoices\<close> returns min(4, size of the working set) options, whatever the draws. Exactly
  one option is marked correct, and its text is the current word's target-language term
  (\<open>en\<close> in the mode de-to-en, \<open>de\<close> in the mode en-to-de). The other options are the
  target-language terms of distractors \<open>ds\<close>: items of the working set with pairwise
  different ids, none of them the id of the current word, three of them or as many as the
  working set has besides the current word.
\<close>

theorem getChoices_correct:
  assumes "distinct (map id_v vocab)" and "current \<in> set vocab"
    and "cs = getChoices vocab current m rnd1 rnd2"
    and "target = (\<lambda>v. if m = DeToEn then en v else de v)"
  shows "length cs = min 4 (length vocab)
    \<and> filter isCorrect_c cs = [\<lparr>text_c = target current, isCorrect_c = True\<rparr>]
    \<and> (\<exists>ds. mset (filter (\<lambda>c. \<not> isCorrect_c c) cs)
               = mset (map (\<lambda>v. \<lparr>text_c = target v, isCorrect_c = False\<rparr>) ds)
            \<and> distinct (map id_v ds) \<and> set ds \<subseteq> set vocab
            \<and> id_v current \<notin> set (map id_v ds)
            \<and> length ds = min 3 (length vocab - 1))"
proof -
  define others where "others = filter (\<lambda>v. id_v v \<noteq> id_v current) vocab"
  define ds where "ds = take 3 (sortRandom rnd1 others)"
  define c0 where "c0 = \<lparr>text_c = target current, isCorrect_c = True\<rparr>"
  define wrong where "wrong = (\<lambda>v. \<lparr>text_c = target v, isCorrect_c = False\<rparr>)"
  define options where "options = c0 # map wrong ds"
  have cs: "cs = sortRandom rnd2 options"
    unfolding assms(3) getChoices_def Let_def options_def c0_def wrong_def ds_def others_def assms(4)
    by (rule refl)
  have perm: "mset (sortRandom rnd1 others) = mset others"
    by (rule mset_sortRandom)
  have len_others: "length others = length vocab - 1"
    unfolding others_def using assms(1,2) by (rule length_others)
  have "length (sortRandom rnd1 others) = length others"
    using perm by (rule mset_eq_length)
  then have len_ds: "length ds = min 3 (length vocab - 1)"
    by (simp add: ds_def len_others)
  have "length cs = length options"
    unfolding cs using mset_sortRandom by (rule mset_eq_length)
  then have "length cs = Suc (length ds)"
    by (simp add: options_def)
  moreover obtain n where "length vocab = Suc n"
    using assms(2) by (cases vocab) auto
  ultimately have len: "length cs = min 4 (length vocab)"
    using len_ds by (simp add: min_def)
  have "filter isCorrect_c options = [c0]"
    by (simp add: options_def c0_def wrong_def filter_empty_conv)
  then have one: "filter isCorrect_c cs = [c0]"
    unfolding cs by (rule filter_sortRandom_single)
  have "mset (filter (\<lambda>c. \<not> isCorrect_c c) cs) = mset (filter (\<lambda>c. \<not> isCorrect_c c) options)"
    unfolding cs by (simp add: mset_sortRandom)
  also have "filter (\<lambda>c. \<not> isCorrect_c c) options = map wrong ds"
    by (simp add: options_def c0_def wrong_def)
  finally have wrongs: "mset (filter (\<lambda>c. \<not> isCorrect_c c) cs) = mset (map wrong ds)" .
  have "distinct (map id_v others)"
    unfolding others_def using assms(1) by (rule distinct_map_filter)
  moreover have "mset (map id_v (sortRandom rnd1 others)) = mset (map id_v others)"
    using perm by simp
  ultimately have "distinct (map id_v (sortRandom rnd1 others))"
    by (metis mset_eq_imp_distinct_iff)
  then have "distinct (take 3 (map id_v (sortRandom rnd1 others)))"
    by (rule distinct_take)
  then have dist: "distinct (map id_v ds)"
    by (simp only: ds_def take_map)
  have "set ds \<subseteq> set (sortRandom rnd1 others)"
    unfolding ds_def by (rule set_take_subset)
  also have "set (sortRandom rnd1 others) = set others"
    using perm by (rule mset_eq_setD)
  finally have sub: "set ds \<subseteq> set others" .
  then have in_vocab: "set ds \<subseteq> set vocab"
    unfolding others_def by auto
  have not_current: "id_v current \<notin> set (map id_v ds)"
    using sub unfolding others_def by auto
  show ?thesis
    using len one wrongs dist in_vocab not_current len_ds
    unfolding c0_def wrong_def by blast
qed

theorem getChoices_correct_witness:
  "distinct (map id_v mockVocab) \<and> danke \<in> set mockVocab \<and> length mockVocab = 5
   \<and> getChoices mockVocab danke DeToEn noDraws noDraws =
        [\<lparr>text_c = ''Thank you'', isCorrect_c = True\<rparr>, \<lparr>text_c = ''Hello'', isCorrect_c = False\<rparr>,
         \<lparr>text_c = ''Goodbye'', isCorrect_c = False\<rparr>, \<lparr>text_c = ''Please'', isCorrect_c = False\<rparr>]
   \<and> length (getChoices mockVocab danke DeToEn noDraws noDraws) = 4
   \<and> filter isCorrect_c (getChoices mockVocab danke DeToEn noDraws noDraws) =
        [\<lparr>text_c = en danke, isCorrect_c = True\<rparr>]
   \<and> length (getChoices [danke, hallo] danke EnToDe noDraws noDraws) = 2"
proof -
  have ids: "map id_v mockVocab = [''1'', ''2'', ''3'', ''4'', ''5'']"
    by (simp add: mockVocab_def hallo_def tschuess_def danke_def bitte_def entschuldigung_def)
  have d: "distinct (map id_v mockVocab)" unfolding ids by simp
  have i: "danke \<in> set mockVocab" by (simp add: mockVocab_def)
  have d2: "distinct (map id_v [danke, hallo])" by (simp add: danke_def hallo_def)
  have i2: "danke \<in> set [danke, hallo]" by simp
  have others: "filter (\<lambda>v. id_v v \<noteq> id_v danke) mockVocab = [hallo, tschuess, bitte, entschuldigung]"
    by (simp add: mockVocab_def hallo_def tschuess_def danke_def bitte_def entschuldigung_def)
  have cs: "getChoices mockVocab danke DeToEn noDraws noDraws =
        [\<lparr>text_c = ''Thank you'', isCorrect_c = True\<rparr>, \<lparr>text_c = ''Hello'', isCorrect_c = False\<rparr>,
         \<lparr>text_c = ''Goodbye'', isCorrect_c = False\<rparr>, \<lparr>text_c = ''Please'', isCorrect_c = False\<rparr>]"
    by (simp add: getChoices_def Let_def others sortRandom_noDraws)
       (simp add: hallo_def tschuess_def danke_def bitte_def)
  show ?thesis
    using d i cs
      getChoices_correct [OF d i refl refl, of DeToEn noDraws noDraws]
      getChoices_correct [OF d2 i2 refl refl, of EnToDe noDraws noDraws]
    by (simp add: mockVocab_def)
qed

section \<open>Filtering and failed words\<close>

text \<open>
  Claim C5, as the code has it. The result of \<open>filterVocab\<close> is a sublist of the input, so
  no item from outside the source list appears. For a selector that is a non-empty text other
  than \<open>all\<close> and \<open>failed\<close>, the result is the items whose difficulty tier equals the
  selector, so every item of the result has exactly that tier. For the selector \<open>failed\<close>
  with a set of failed ids, the result is the input items whose id is in that set.
  \<open>getFailedWordIds\<close> returns exactly the word ids whose entry has more attempts than
  correct answers; a word with as many correct answers as attempts is not among them.
  The empty text as selector lets every item pass.
\<close>

theorem filterVocab_correct:
  "subseq (filterVocab items d f) items
   \<and> set (filterVocab items d f) \<subseteq> set items
   \<and> (sel \<noteq> [] \<and> sel \<noteq> ''all'' \<and> sel \<noteq> ''failed'' \<longrightarrow>
        filterVocab items (Some sel) f = filter (\<lambda>it. difficulty_v it = sel) items
        \<and> (\<forall>it \<in> set (filterVocab items (Some sel) f). difficulty_v it = sel))
   \<and> filterVocab items (Some ''failed'') (Some ids) = filter (\<lambda>it. id_v it \<in> set ids) items
   \<and> set (getFailedWordIds st) =
        {w. \<exists>ws. map_of (wordStatsOrEmpty st) w = Some ws \<and> attempts_w ws > correct_w ws}
   \<and> (\<forall>w ws. map_of (wordStatsOrEmpty st) w = Some ws \<and> attempts_w ws = correct_w ws
          \<longrightarrow> w \<notin> set (getFailedWordIds st))
   \<and> filterVocab items (Some []) f = items"
proof -
  have a: "subseq (filterVocab items d f) items" "set (filterVocab items d f) \<subseteq> set items"
    "filterVocab items (Some []) f = items"
    by (simp_all add: filterVocab_def)
  have b: "filterVocab items (Some sel) f = filter (\<lambda>it. difficulty_v it = sel) items"
    if "sel \<noteq> []" "sel \<noteq> ''all''" "sel \<noteq> ''failed''"
    using that by (auto simp add: filterVocab_def intro!: filter_cong)
  have c: "filterVocab items (Some ''failed'') (Some ids) = filter (\<lambda>it. id_v it \<in> set ids) items"
    by (simp add: filterVocab_def)
  have d: "w \<notin> set (getFailedWordIds st)"
    if "map_of (wordStatsOrEmpty st) w = Some ws" "attempts_w ws = correct_w ws" for w ws
    using that by (simp add: set_getFailedWordIds JsNumber_less_irrefl)
  show ?thesis
    using a b c d set_getFailedWordIds [of st] by (simp add: JsNumber_less_irrefl)
qed

theorem filterVocab_correct_witness:
  "''easy'' \<noteq> [] \<and> ''easy'' \<noteq> ''all'' \<and> ''easy'' \<noteq> ''failed''
   \<and> filterVocab [hallo, danke] (Some ''easy'') None = [hallo]
   \<and> map difficulty_v (filterVocab [hallo, danke] (Some ''easy'') None) = [''easy'']
   \<and> filterVocab [hallo, danke] (Some ''failed'') (Some [''3'']) = [danke]
   \<and> map_of (wordStatsOrEmpty sampleStats) ''3'' =
        Some \<lparr>attempts_w = 1, correct_w = 1, lastAttempted = ''2025-01-01''\<rparr>
   \<and> ''3'' \<notin> set (getFailedWordIds sampleStats)
   \<and> getFailedWordIds sampleStats = [''1'']"
  using filterVocab_correct [of "[hallo, danke]" "Some ''easy''" None "''easy''" "[''3'']" sampleStats]
  by (simp add: hallo_def danke_def sampleStats_def wordStatsOrEmpty_def getFailedWordIds_def
        JsNumber_simps)

text \<open>
  The empty text is a selector too, present and neither \<open>all\<close> nor \<open>failed\<close>; \<open>!difficulty\<close>
  treats it as an absent one, and an item of the tier \<open>easy\<close> passes.
\<close>

theorem filterVocab_empty_selector_counterexample:
  "[] \<noteq> ''all'' \<and> [] \<noteq> ''failed''
   \<and> filterVocab [hallo] (Some []) (Some []) = [hallo] \<and> difficulty_v hallo \<noteq> []"
  by (simp add: filterVocab_def hallo_def)

section \<open>Advancing\<close>

text \<open>
  Claim C6, at an input where the code breaks it. The sample session is initialised with
  two items, advanced once and restarted. \<open>restartQuiz\<close> puts the position back to 0 and
  leaves the second word on display, where \<open>initializeQuiz\<close> and \<open>setDifficulty\<close> load the
  first word together with the position 0. \<open>advanceToNextQuestion\<close> then sets the position
  to 1 and displays the deck's item there, which is the word displayed before: the deck has
  two different items and the displayed word does not change.
\<close>

theorem advanceToNextQuestion_after_restart:
  "reachable restartedStore
   \<and> shuffled (quiz restartedStore) = [danke, hallo] \<and> danke \<noteq> hallo
   \<and> index (quiz restartedStore) = 0
   \<and> displayWord (quiz restartedStore) = Some hallo
   \<and> \<not> inSync (quiz restartedStore)
   \<and> index (advanceToNextQuestion noDraws noDraws (quiz restartedStore)) = 1
   \<and> displayWord (advanceToNextQuestion noDraws noDraws (quiz restartedStore)) = Some hallo"
proof -
  have r: "reachable restartedStore"
    unfolding restartedStore_def
    by (intro reachable.after_action) (rule reachable_startedStore)
  have d: "danke \<noteq> hallo" by (simp add: danke_def hallo_def)
  show ?thesis
    using r d
    by (simp add: quiz_restartedStore quiz_startedStore quiz_createdStore inSync_def
        advanceToNextQuestion_def arrayGet_def Let_def)
qed

section \<open>The verdict on a typed answer\<close>

text \<open>
  Claim C7, as the code has it. When the question has not been answered yet and the text
  typed in has a character that is not white space, \<open>submitTextAnswer\<close> records as verdict
  whether the typed text without its surrounding white space equals the target-language
  term, taken as the caller passes it, up to the case of the letters. For a term that has
  no surrounding white space this is the match of the spec: the input and the term are a
  case-insensitive, whitespace-trimmed exact match. In particular the typed text \<open>hello\<close>
  is judged correct for the term \<open>Hello\<close>. Texts are sequences of code units below 256.
\<close>

theorem submitTextAnswer_verdict:
  assumes "\<not> hasAnswered (quiz store)"
    and "\<exists>c \<in> set (userInput (quiz store)). \<not> isWhiteSpace c"
  shows "lastResult (quiz (submitTextAnswer correctAnswer w now1 now2 store))
           = Some (spec_trimmedInputMatch (userInput (quiz store)) correctAnswer)
    \<and> (spec_trimmedForm correctAnswer correctAnswer \<longrightarrow>
         lastResult (quiz (submitTextAnswer correctAnswer w now1 now2 store))
           = Some (spec_textMatch (userInput (quiz store)) correctAnswer))
    \<and> (userInput (quiz store) = ''hello'' \<longrightarrow>
         lastResult (quiz (submitTextAnswer ''Hello'' w now1 now2 store)) = Some True)"
proof -
  have nonblank: "trim (userInput (quiz store)) \<noteq> []"
    using assms(2) by (simp only: trim_empty_iff) blast
  have verdict: "lastResult (quiz (submitTextAnswer t w now1 now2 store))
           = Some (spec_trimmedInputMatch (userInput (quiz store)) t)" for t
    using assms(1) nonblank
    by (simp add: submitTextAnswer_def Let_def handleAnswer_def handleAnswerSet_def
          spec_trimmedInputMatch_iff)
  have both: "spec_textMatch i correctAnswer = spec_trimmedInputMatch i correctAnswer"
    if "spec_trimmedForm correctAnswer correctAnswer" for i
    using that by (simp add: spec_trimmedForm_iff spec_textMatch_iff spec_trimmedInputMatch_iff)
  have "spec_trimmedInputMatch ''hello'' ''Hello''"
    unfolding spec_trimmedInputMatch_iff by code_simp
  with verdict both show ?thesis by simp
qed

theorem submitTextAnswer_verdict_witness:
  "\<not> hasAnswered (quiz typedStore) \<and> userInput (quiz typedStore) = '' hello ''
   \<and> \<not> isWhiteSpace (CHR ''h'')
   \<and> spec_trimmedForm ''Hello'' ''Hello'' \<and> spec_trimmedForm ''Hallo'' ''Hallo''
   \<and> spec_textMatch '' hello '' ''Hello''
   \<and> lastResult (quiz (submitTextAnswer ''Hello'' hallo ''t1'' ''t2'' typedStore)) = Some True
   \<and> \<not> spec_textMatch '' hello '' ''Hallo''
   \<and> lastResult (quiz (submitTextAnswer ''Hallo'' hallo ''t1'' ''t2'' typedStore)) = Some False
   \<and> \<not> hasAnswered (quiz helloStore) \<and> userInput (quiz helloStore) = ''hello''
   \<and> lastResult (quiz (submitTextAnswer ''Hello'' hallo ''t1'' ''t2'' helloStore)) = Some True"
proof -
  have h: "\<not> isWhiteSpace (CHR ''h'')" by (simp add: isWhiteSpace_def)
  have nb: "\<exists>c \<in> set (userInput (quiz typedStore)). \<not> isWhiteSpace c"
    using h by (simp add: typedStore_facts)
  have nb': "\<exists>c \<in> set (userInput (quiz helloStore)). \<not> isWhiteSpace c"
    using h by (simp add: helloStore_facts)
  have t1: "spec_trimmedForm ''Hello'' ''Hello''"
    unfolding spec_trimmedForm_iff by code_simp
  have t2: "spec_trimmedForm ''Hallo'' ''Hallo''"
    unfolding spec_trimmedForm_iff by code_simp
  have m1: "spec_textMatch '' hello '' ''Hello''"
    unfolding spec_textMatch_iff by code_simp
  have m2: "\<not> spec_textMatch '' hello '' ''Hallo''"
    unfolding spec_textMatch_iff by code_simp
  have i1: "spec_trimmedInputMatch '' hello '' ''Hello''"
    unfolding spec_trimmedInputMatch_iff by code_simp
  have i2: "\<not> spec_trimmedInputMatch '' hello '' ''Hallo''"
    unfolding spec_trimmedInputMatch_iff by code_simp
  have r1: "lastResult (quiz (submitTextAnswer ''Hello'' hallo ''t1'' ''t2'' typedStore)) = Some True"
    using i1 typedStore_facts(2)
      submitTextAnswer_verdict [OF typedStore_facts(1) nb, of "''Hello''" hallo "''t1''" "''t2''"]
    by simp
  have r2: "lastResult (quiz (submitTextAnswer ''Hallo'' hallo ''t1'' ''t2'' typedStore)) = Some False"
    using i2 typedStore_facts(2)
      submitTextAnswer_verdict [OF typedStore_facts(1) nb, of "''Hallo''" hallo "''t1''" "''t2''"]
    by simp
  have r3: "lastResult (quiz (submitTextAnswer ''Hello'' hallo ''t1'' ''t2'' helloStore)) = Some True"
    using helloStore_facts(2)
      submitTextAnswer_verdict [OF helloStore_facts(1) nb', of "''Hello''" hallo "''t1''" "''t2''"]
    by blast
  show ?thesis
    using h t1 t2 m1 m2 r1 r2 r3 typedStore_facts helloStore_facts by simp
qed

text \<open>
  The term is not trimmed: with \<open>Hello\<close> and a blank typed in and the same text as the
  term, the input and the term are a whitespace-trimmed exact match, and the answer is
  judged wrong.
\<close>

theorem submitTextAnswer_untrimmed_term_counterexample:
  "reachable paddedStore
   \<and> \<not> hasAnswered (quiz paddedStore) \<and> userInput (quiz paddedStore) = ''Hello ''
   \<and> \<not> isWhiteSpace (CHR ''H'')
   \<and> spec_textMatch ''Hello '' ''Hello ''
   \<and> lastResult (quiz (submitTextAnswer ''Hello '' hallo ''t1'' ''t2'' paddedStore)) = Some False"
proof -
  have r: "reachable paddedStore"
    unfolding paddedStore_def by (intro reachable.after_action) (rule reachable_startedStore)
  have h: "\<not> isWhiteSpace (CHR ''H'')" by (simp add: isWhiteSpace_def)
  have m: "spec_textMatch ''Hello '' ''Hello ''"
    unfolding spec_textMatch_iff by simp
  have t: "trim ''Hello '' = ''Hello''" by code_simp
  have l: "toLowerCase ''Hello'' \<noteq> toLowerCase ''Hello ''" by code_simp
  have v: "lastResult (quiz (submitTextAnswer ''Hello '' hallo ''t1'' ''t2'' paddedStore)) = Some False"
    using l by (simp add: submitTextAnswer_def Let_def handleAnswer_def handleAnswerSet_def
          paddedStore_facts t)
  show ?thesis
    using r h m v paddedStore_facts by simp
qed

section \<open>Statistics on an accepted answer\<close>





section \<open>Persistence round trip\<close>

text \<open>
  Claim C9, as the code has it. Loading and saving is idempotent: once the loaded record has
  been written, loading and saving again changes nothing. For a stored record \<open>st\<close> the
  content written is \<open>st\<close> with its per-word map defaulted to the empty map when absent; so
  a stored record that has its per-word map is written back unchanged, and so is any
  content when the write fails.
\<close>

theorem saveStats_loadStats:
  "saveStats w' (loadStats (saveStats True (loadStats ls now) ls) now')
       (saveStats True (loadStats ls now) ls)
     = saveStats True (loadStats ls now) ls
   \<and> (ls STATS_KEY = Some (StatsJson st) \<longrightarrow>
        saveStats True (loadStats ls now) ls =
          ls(STATS_KEY \<mapsto> StatsJson (st\<lparr>wordStats := Some (wordStatsOrEmpty st)\<rparr>))
        \<and> saveStats False (loadStats ls now) ls = ls
        \<and> (wordStats st \<noteq> None \<longrightarrow> saveStats w (loadStats ls now) ls = ls))"
  by (auto simp add: saveStats_def loadStats_def wordStatsOrEmpty_def defaultStats_def fun_eq_iff
        split: option.splits StoredItem.splits)

theorem saveStats_loadStats_witness:
  "savedStorage STATS_KEY = Some (StatsJson sampleStats) \<and> wordStats sampleStats \<noteq> None
   \<and> saveStats True (loadStats savedStorage ''t0'') savedStorage = savedStorage"
proof -
  have a: "savedStorage STATS_KEY = Some (StatsJson sampleStats)"
    by (simp add: savedStorage_def)
  have b: "wordStats sampleStats \<noteq> None"
    by (simp add: sampleStats_def)
  show ?thesis
    using a b saveStats_loadStats [of True savedStorage "''t0''" "''t0''" sampleStats True]
    by blast
qed

text \<open>
  An older record without the per-word map is not written back as it was stored: the text
  written has the additional property \<open>wordStats\<close>, holding the empty map.
\<close>

theorem saveStats_loadStats_old_record_counterexample:
  "oldStorage STATS_KEY = Some (StatsJson oldRecord)
   \<and> saveStats True (loadStats oldStorage ''t0'') oldStorage STATS_KEY
       = Some (StatsJson (oldRecord\<lparr>wordStats := Some []\<rparr>))
   \<and> saveStats True (loadStats oldStorage ''t0'') oldStorage STATS_KEY \<noteq> oldStorage STATS_KEY"
  by (simp add: oldStorage_def saveStats_def loadStats_def wordStatsOrEmpty_def oldRecord_def)

section \<open>The frame of the per-word update\<close>

text \<open>
  Claim C10. The record that \<open>updateWordStats\<close> returns for the word \<open>w\<close> differs from its
  input in the per-word map only: the aggregate correct answers, the aggregate attempts and
  the date of the last session are those of the input, the entries of all other words are
  the same and in the same order, and the lookup of any other word gives the same entry.
  On the heap, the function changes no object that exists when it is called (the heap it
  returns is the old heap with new objects at its end) and returns a new address; when
  the address it is given stands for the record \<open>st\<close>, it returns, the new address stands
  for the updated record, and the given address still stands for \<open>st\<close>.
\<close>

theorem updateWordStats_frame:
  "updateWordStats st w ok now = st\<lparr>wordStats := wordStats (updateWordStats st w ok now)\<rparr>
   \<and> correct_s (updateWordStats st w ok now) = correct_s st
   \<and> attempts_s (updateWordStats st w ok now) = attempts_s st
   \<and> lastSessionDate (updateWordStats st w ok now) = lastSessionDate st
   \<and> filter (\<lambda>p. fst p \<noteq> w) (wordStatsOrEmpty (updateWordStats st w ok now))
       = filter (\<lambda>p. fst p \<noteq> w) (wordStatsOrEmpty st)
   \<and> (\<forall>w'. w' \<noteq> w \<longrightarrow>
         map_of (wordStatsOrEmpty (updateWordStats st w ok now)) w' = map_of (wordStatsOrEmpty st) w')
   \<and> (updateWordStatsHeap a w ok now h = Some (h', r) \<longrightarrow> take (length h) h' = h \<and> length h \<le> r)
   \<and> (reprStats h a st \<longrightarrow>
        (\<exists>h' r. updateWordStatsHeap a w ok now h = Some (h', r)
           \<and> take (length h) h' = h \<and> length h \<le> r
           \<and> reprStats h' r (updateWordStats st w ok now)
           \<and> reprStats h' a st))"
proof -
  have "updateWordStats st w ok now = st\<lparr>wordStats := wordStats (updateWordStats st w ok now)\<rparr>"
    "correct_s (updateWordStats st w ok now) = correct_s st"
    "attempts_s (updateWordStats st w ok now) = attempts_s st"
    "lastSessionDate (updateWordStats st w ok now) = lastSessionDate st"
    by (simp_all add: updateWordStats_def Let_def)
  moreover have "filter (\<lambda>p. fst p \<noteq> w) (wordStatsOrEmpty (updateWordStats st w ok now))
       = filter (\<lambda>p. fst p \<noteq> w) (wordStatsOrEmpty st)"
    by (simp add: updateWordStats_def Let_def wordStatsOrEmpty_def filter_setProp_other)
  moreover have "\<forall>w'. w' \<noteq> w \<longrightarrow>
         map_of (wordStatsOrEmpty (updateWordStats st w ok now)) w' = map_of (wordStatsOrEmpty st) w'"
    by (simp add: updateWordStats_def Let_def wordStatsOrEmpty_def map_of_setProp)
  ultimately show ?thesis
    using updateWordStatsHeap_extends [of a w ok now h h' r]
      updateWordStatsHeap_refines [of h a st w ok now]
    by blast
qed

theorem updateWordStats_frame_witness:
  "reprStats sampleHeap 3 sampleStats
   \<and> updateWordStatsHeap 3 ''1'' True ''t1'' sampleHeap =
       Some (sampleHeap @ [WordStatsObj 3 2 ''t1'', DictObj [(''1'', 4), (''3'', 1)],
                           StatsObj 2 3 ''2025-01-01'' (Some 5)], 6)
   \<and> length sampleHeap = 4
   \<and> reprStats (sampleHeap @ [WordStatsObj 3 2 ''t1'', DictObj [(''1'', 4), (''3'', 1)],
                                StatsObj 2 3 ''2025-01-01'' (Some 5)]) 6
         (updateWordStats sampleStats ''1'' True ''t1'')
   \<and> reprStats (sampleHeap @ [WordStatsObj 3 2 ''t1'', DictObj [(''1'', 4), (''3'', 1)],
                                StatsObj 2 3 ''2025-01-01'' (Some 5)]) 3 sampleStats
   \<and> wordStatsOrEmpty (updateWordStats sampleStats ''1'' True ''t1'') =
       [(''1'', \<lparr>attempts_w = 3, correct_w = 2, lastAttempted = ''t1''\<rparr>),
        (''3'', \<lparr>attempts_w = 1, correct_w = 1, lastAttempted = ''2025-01-01''\<rparr>)]
   \<and> ''3'' \<noteq> ''1''
   \<and> map_of (wordStatsOrEmpty (updateWordStats sampleStats ''1'' True ''t1'')) ''3''
       = map_of (wordStatsOrEmpty sampleStats) ''3''"
proof -
  let ?h' = "sampleHeap @ [WordStatsObj 3 2 ''t1'', DictObj [(''1'', 4), (''3'', 1)],
                           StatsObj 2 3 ''2025-01-01'' (Some 5)]"
  note frame = updateWordStats_frame [of sampleStats "''1''" True "''t1''" 3 sampleHeap ?h' 6]
  have run: "updateWordStatsHeap 3 ''1'' True ''t1'' sampleHeap = Some (?h', 6)"
    by (simp add: updateWordStatsHeap_def heapGet_def sampleHeap_def alloc_def Let_def)
  have val: "wordStatsOrEmpty (updateWordStats sampleStats ''1'' True ''t1'') =
       [(''1'', \<lparr>attempts_w = 3, correct_w = 2, lastAttempted = ''t1''\<rparr>),
        (''3'', \<lparr>attempts_w = 1, correct_w = 1, lastAttempted = ''2025-01-01''\<rparr>)]"
    by (simp add: updateWordStats_def wordStatsOrEmpty_def sampleStats_def Let_def)
  have len: "length sampleHeap = 4" by (simp add: sampleHeap_def)
  have ne: "''3'' \<noteq> ''1''" by simp
  have "\<forall>w'. w' \<noteq> ''1'' \<longrightarrow>
      map_of (wordStatsOrEmpty (updateWordStats sampleStats ''1'' True ''t1'')) w'
        = map_of (wordStatsOrEmpty sampleStats) w'"
    using frame by (elim conjE)
  then have other: "map_of (wordStatsOrEmpty (updateWordStats sampleStats ''1'' True ''t1'')) ''3''
       = map_of (wordStatsOrEmpty sampleStats) ''3''"
    using ne by (simp only: simp_thms)
  have "reprStats sampleHeap 3 sampleStats \<longrightarrow>
        (\<exists>h' r. updateWordStatsHeap 3 ''1'' True ''t1'' sampleHeap = Some (h', r)
           \<and> take (length sampleHeap) h' = sampleHeap \<and> length sampleHeap \<le> r
           \<and> reprStats h' r (updateWordStats sampleStats ''1'' True ''t1'')
           \<and> reprStats h' 3 sampleStats)"
    using frame by (elim conjE)
  then obtain h' r where "updateWordStatsHeap 3 ''1'' True ''t1'' sampleHeap = Some (h', r)"
    and new: "reprStats h' r (updateWordStats sampleStats ''1'' True ''t1'')"
    and old: "reprStats h' 3 sampleStats"
    using reprStats_sampleHeap by (elim impE exE conjE)
  then have "h' = ?h'" "r = 6" using run by simp_all
  with new old have new': "reprStats ?h' 6 (updateWordStats sampleStats ''1'' True ''t1'')"
    and old': "reprStats ?h' 3 sampleStats"
    by (simp_all only:)
  show ?thesis
    by (intro conjI) (rule reprStats_sampleHeap run len new' old' val ne other)+
qed

end
